theory Spec2Isabelle
  imports Complex_Main
begin

section \<open>Data model (types.ts)\<close>

text \<open>
  The three interfaces of \<^verbatim>\<open>types.ts\<close> as records. Field names that occur in more
  than one interface carry a prefix (\<open>u_\<close>, \<open>p_\<close>, \<open>t_\<close>); \<open>type\<close> is \<open>ttype\<close>.
  Strings are \<open>string\<close>. Quantities, deltas and amounts are JavaScript numbers that
  hold integers (\<^verbatim>\<open>parseInt\<close> results and the deltas \<open>+1\<close>, \<open>-1\<close>): they are doubles
  with an integer value, written as that integer. Their sum is rounded as the sum of two
  doubles is (\<open>jsAdd\<close> below); \<^verbatim>\<open>Math.abs\<close> and the comparisons are exact. The price is
  only stored, never computed with, and is a rational.
\<close>

record User =
  u_id :: string
  fullName :: string
  email :: string
  createdAt :: string

record Product =
  p_id :: string
  p_sku :: string
  p_name :: string
  price :: rat
  quantity :: int
  lastUpdated :: string

datatype TransactionType = Initial | Increase | Decrease

record Transaction =
  t_id :: string
  productId :: string
  sku :: string
  productName :: string
  ttype :: TransactionType
  amount :: int
  timestamp :: string

text \<open>
  The state of \<^verbatim>\<open>App\<close>: the three tables held by \<^verbatim>\<open>useLocalStorage\<close>.
\<close>

record state =
  users :: "User list"
  products :: "Product list"
  transactions :: "Transaction list"

text \<open>
  What a handler reads from its surroundings: \<^verbatim>\<open>crypto.randomUUID()\<close> and
  \<^verbatim>\<open>new Date().toISOString()\<close>. \<open>randomUUID e k\<close> is the result of the \<open>k\<close>-th call
  made while one handler runs, \<open>now e k\<close> the \<open>k\<close>-th date read.
\<close>

record env =
  randomUUID :: "nat \<Rightarrow> string"
  now :: "nat \<Rightarrow> string"

section \<open>The handlers of App (index.tsx)\<close>

text \<open>
  \<^verbatim>\<open>addTransaction\<close> builds the entry and calls
  \<^verbatim>\<open>setTransactions((prev) => [newTransaction, ...prev])\<close>. The setter of
  \<^verbatim>\<open>useLocalStorage\<close> applies the updater to the value \<open>stored\<close> its closure holds (the
  table as of the last render) and makes the result the next value of the table. So
  the function returns that next value, given \<open>stored\<close>.
\<close>

definition addTransaction ::
  "string \<Rightarrow> string \<Rightarrow> Transaction list \<Rightarrow> Product \<Rightarrow> TransactionType \<Rightarrow> int \<Rightarrow> Transaction list"
where
  "addTransaction uuid date stored product ty amt =
     \<lparr>t_id = uuid, productId = p_id product, sku = p_sku product,
      productName = p_name product, ttype = ty, amount = \<bar>amt\<bar>, timestamp = date\<rparr> # stored"

definition handleRegisterUser :: "env \<Rightarrow> string \<Rightarrow> string \<Rightarrow> state \<Rightarrow> state" where
  "handleRegisterUser e fullName' email' s =
     (let newUser = \<lparr>u_id = randomUUID e 0, fullName = fullName', email = email',
                     createdAt = now e 0\<rparr>
      in s\<lparr>users := users s @ [newUser]\<rparr>)"

definition handleRegisterProduct ::
  "env \<Rightarrow> string \<Rightarrow> string \<Rightarrow> rat \<Rightarrow> int \<Rightarrow> state \<Rightarrow> state"
where
  "handleRegisterProduct e sku' name' price' quantity' s =
     (let newProduct = \<lparr>p_id = randomUUID e 0, p_sku = sku', p_name = name',
                        price = price', quantity = quantity', lastUpdated = now e 0\<rparr>
      in s\<lparr>products := products s @ [newProduct],
           transactions :=
             addTransaction (randomUUID e 1) (now e 1) (transactions s) newProduct Initial quantity'\<rparr>)"

text \<open>
  \<^verbatim>\<open>p.quantity + amount\<close> adds two doubles: the result is the exact sum rounded to the
  nearest double, a tie going to the even significand. A double has a significand of 53
  bits, so every integer up to \<open>2^53 = 9007199254740992\<close> in magnitude is a double, and
  above that the doubles are \<open>ulp n\<close> apart, a power of two. The exponent range is not
  modelled: sums are taken to stay below \<open>2^1024\<close>.
\<close>

function ulp :: "nat \<Rightarrow> nat" where
  "ulp n = (if n < 9007199254740992 then 1 else 2 * ulp (n div 2))"
  by pat_completeness auto
termination
  by (relation "measure id") auto

declare ulp.simps [simp del]

definition roundNat :: "nat \<Rightarrow> nat" where
  "roundNat n =
     (let u = ulp n; m = n div u; r = n mod u
      in (if u < 2 * r \<or> (2 * r = u \<and> odd m) then m + 1 else m) * u)"

definition roundDouble :: "int \<Rightarrow> int" where
  "roundDouble x = sgn x * int (roundNat (nat \<bar>x\<bar>))"

definition jsAdd :: "int \<Rightarrow> int \<Rightarrow> int" where
  "jsAdd a b = roundDouble (a + b)"

text \<open>
  The callback that \<^verbatim>\<open>handleAdjustStock\<close> maps over the products, with its effect made
  explicit. \<open>stored\<close> is the ledger the closure of \<^verbatim>\<open>setTransactions\<close> holds; \<open>k\<close> counts
  the updates made so far in this call (the \<open>k\<close>-th update reads the dates \<open>2k\<close> and
  \<open>2k+1\<close> and the identifier \<open>k\<close>); \<open>cur\<close> is the next value of the ledger. Every call of
  \<^verbatim>\<open>addTransaction\<close> starts again from \<open>stored\<close>, as the setter does.
\<close>

fun adjustMap ::
  "env \<Rightarrow> string \<Rightarrow> int \<Rightarrow> Transaction list \<Rightarrow> Product list \<Rightarrow> nat \<Rightarrow> Transaction list
     \<Rightarrow> Product list \<times> nat \<times> Transaction list"
where
  "adjustMap e productId' amt stored [] k cur = ([], k, cur)"
| "adjustMap e productId' amt stored (p # ps) k cur =
     (if p_id p = productId' then
        (let newQuantity = jsAdd (quantity p) amt in
         if newQuantity < 0 then
           (let (ps', r) = adjustMap e productId' amt stored ps k cur in (p # ps', r))
         else
           (let updatedProduct = p\<lparr>quantity := newQuantity, lastUpdated := now e (2 * k)\<rparr>;
                cur' = addTransaction (randomUUID e k) (now e (2 * k + 1)) stored updatedProduct
                         (if amt > 0 then Increase else Decrease) amt;
                (ps', r) = adjustMap e productId' amt stored ps (Suc k) cur'
            in (updatedProduct # ps', r)))
      else
        (let (ps', r) = adjustMap e productId' amt stored ps k cur in (p # ps', r)))"

definition handleAdjustStock :: "env \<Rightarrow> string \<Rightarrow> int \<Rightarrow> state \<Rightarrow> state" where
  "handleAdjustStock e productId' amt s =
     (let (newProducts, k, txs) =
            adjustMap e productId' amt (transactions s) (products s) 0 (transactions s)
      in s\<lparr>products := newProducts, transactions := txs\<rparr>)"

text \<open>
  A call of \<^verbatim>\<open>handleAdjustStock\<close> is accepted when the delta does not drive the quantity
  of a product carrying the identifier below zero. That is when the callback above
  passes the guard \<^verbatim>\<open>newQuantity < 0\<close> and reaches \<^verbatim>\<open>addTransaction\<close>: the rounded sum
  is negative exactly when the sum is (\<open>jsAdd_neg\<close> below).
\<close>

definition accepted :: "Product list \<Rightarrow> string \<Rightarrow> int \<Rightarrow> bool" where
  "accepted ps productId' amt = (\<exists>p \<in> set ps. p_id p = productId' \<and> 0 \<le> quantity p + amt)"

subsection \<open>Sequences of adjustments, and what the ledger says about a product\<close>

text \<open>A sequence of \<^verbatim>\<open>adjustStock\<close> calls only: environment, product id, signed delta.\<close>

fun adjustAll :: "(env \<times> string \<times> int) list \<Rightarrow> state \<Rightarrow> state" where
  "adjustAll [] s = s"
| "adjustAll ((e, productId', amt) # cs) s = adjustAll cs (handleAdjustStock e productId' amt s)"

text \<open>The number of calls of the sequence on product \<open>x\<close> that are accepted when they run.\<close>

fun acceptedCalls :: "(env \<times> string \<times> int) list \<Rightarrow> state \<Rightarrow> string \<Rightarrow> nat" where
  "acceptedCalls [] s x = 0"
| "acceptedCalls ((e, productId', amt) # cs) s x =
     (if productId' = x \<and> accepted (products s) productId' amt then 1 else 0)
       + acceptedCalls cs (handleAdjustStock e productId' amt s) x"

text \<open>The ledger entries of type increase or decrease that reference product \<open>x\<close>.\<close>

definition adjustmentEntries :: "Transaction list \<Rightarrow> string \<Rightarrow> Transaction list" where
  "adjustmentEntries txs x =
     filter (\<lambda>t. productId t = x \<and> (ttype t = Increase \<or> ttype t = Decrease)) txs"

text \<open>The entries of one type that reference product \<open>x\<close>, and the sum of their amounts.\<close>

definition entriesOf :: "TransactionType \<Rightarrow> Transaction list \<Rightarrow> string \<Rightarrow> Transaction list" where
  "entriesOf ty txs x = filter (\<lambda>t. productId t = x \<and> ttype t = ty) txs"

definition sumAmounts :: "TransactionType \<Rightarrow> Transaction list \<Rightarrow> string \<Rightarrow> int" where
  "sumAmounts ty txs x = sum_list (map amount (entriesOf ty txs x))"

definition emptyState :: state where
  "emptyState = \<lparr>users = [], products = [], transactions = []\<rparr>"

text \<open>
  The ledger accounts for the products: ids are unique, every entry references a product
  of the table, and each product has one initial entry and a quantity equal to the
  initial amount plus the increases minus the decreases.
\<close>

definition reconciled :: "state \<Rightarrow> bool" where
  "reconciled s =
     (distinct (map p_id (products s)) \<and>
      (\<forall>t \<in> set (transactions s). productId t \<in> set (map p_id (products s))) \<and>
      (\<forall>p \<in> set (products s).
         length (entriesOf Initial (transactions s) (p_id p)) = 1 \<and>
         quantity p = sumAmounts Initial (transactions s) (p_id p)
                    + sumAmounts Increase (transactions s) (p_id p)
                    - sumAmounts Decrease (transactions s) (p_id p)))"

section \<open>The user registration form (index.tsx, UserRegistrationForm)\<close>

text \<open>
  The regular expression \<^verbatim>\<open>/^\S+@\S+\.\S+$/\<close> as a term, and \<^verbatim>\<open>test\<close> as a matcher by
  derivatives. The pattern is anchored at both ends and has no flag, so \<^verbatim>\<open>test\<close> holds
  when the whole string matches. Characters are those of \<open>string\<close> (code points below
  256); among them \<^verbatim>\<open>\s\<close> is tab, line feed, vertical tab, form feed, carriage return,
  space and no-break space.
\<close>

datatype regex =
    Fail
  | Empty
  | Lit char
  | NotSpace
  | Seq regex regex
  | Alt regex regex
  | Star regex

definition isSpace :: "char \<Rightarrow> bool" where
  "isSpace c = (c \<in> set [CHR 0x09, CHR 0x0A, CHR 0x0B, CHR 0x0C, CHR 0x0D, CHR 0x20, CHR 0xA0])"

definition OneOrMore :: "regex \<Rightarrow> regex" where
  "OneOrMore r = Seq r (Star r)"

definition emailRegex :: regex where
  "emailRegex =
     Seq (OneOrMore NotSpace) (Seq (Lit CHR ''@'')
       (Seq (OneOrMore NotSpace) (Seq (Lit CHR ''.'') (OneOrMore NotSpace))))"

fun nullable :: "regex \<Rightarrow> bool" where
  "nullable Fail = False"
| "nullable Empty = True"
| "nullable (Lit c) = False"
| "nullable NotSpace = False"
| "nullable (Seq r s) = (nullable r \<and> nullable s)"
| "nullable (Alt r s) = (nullable r \<or> nullable s)"
| "nullable (Star r) = True"

fun deriv :: "char \<Rightarrow> regex \<Rightarrow> regex" where
  "deriv a Fail = Fail"
| "deriv a Empty = Fail"
| "deriv a (Lit c) = (if a = c then Empty else Fail)"
| "deriv a NotSpace = (if isSpace a then Fail else Empty)"
| "deriv a (Seq r s) =
     (if nullable r then Alt (Seq (deriv a r) s) (deriv a s) else Seq (deriv a r) s)"
| "deriv a (Alt r s) = Alt (deriv a r) (deriv a s)"
| "deriv a (Star r) = Seq (deriv a r) (Star r)"

fun test :: "regex \<Rightarrow> string \<Rightarrow> bool" where
  "test r [] = nullable r"
| "test r (a # w) = test (deriv a r) w"

text \<open>
  The strings a regular expression stands for, to state what \<open>test\<close> decides.
\<close>

inductive_set star :: "string set \<Rightarrow> string set" for A :: "string set" where
  star_empty: "[] \<in> star A"
| star_step: "u \<in> A \<Longrightarrow> v \<in> star A \<Longrightarrow> u @ v \<in> star A"

fun lang :: "regex \<Rightarrow> string set" where
  "lang Fail = {}"
| "lang Empty = {[]}"
| "lang (Lit c) = {[c]}"
| "lang NotSpace = {[c] | c. \<not> isSpace c}"
| "lang (Seq r s) = {u @ v | u v. u \<in> lang r \<and> v \<in> lang s}"
| "lang (Alt r s) = lang r \<union> lang s"
| "lang (Star r) = star (lang r)"

text \<open>
  The pattern in the spec's words, \<open>local-part@domain.tld\<close>: a non-empty run without
  whitespace, an \<open>@\<close>, a non-empty run, a dot, a non-empty run.
\<close>

definition emailPattern :: "string \<Rightarrow> bool" where
  "emailPattern s =
     (\<exists>a b c. s = a @ ''@'' @ b @ ''.'' @ c \<and> a \<noteq> [] \<and> b \<noteq> [] \<and> c \<noteq> [] \<and>
              (\<forall>x \<in> set s. \<not> isSpace x))"

text \<open>
  \<^verbatim>\<open>handleSubmit\<close> of the form: the first component is the form's \<^verbatim>\<open>error\<close> field
  after the call (empty when the input was taken), the second the state of the app.
  A rejection returns before \<^verbatim>\<open>onRegisterUser\<close> is called.
\<close>

definition UserRegistrationForm_handleSubmit ::
  "env \<Rightarrow> string \<Rightarrow> string \<Rightarrow> state \<Rightarrow> string \<times> state"
where
  "UserRegistrationForm_handleSubmit e fullName' email' s =
     (if fullName' = [] \<or> email' = [] then (''Both fields are required.'', s)
      else if \<not> test emailRegex email' then (''Please enter a valid email address.'', s)
      else ([], handleRegisterUser e fullName' email' s))"

section \<open>The product registration form (index.tsx, ProductRegistrationForm)\<close>

text \<open>
  \<^verbatim>\<open>parseFloat\<close> and \<^verbatim>\<open>parseInt(_, 10)\<close> belong to the runtime and are parameters;
  \<open>None\<close> is \<^verbatim>\<open>NaN\<close>, and a parsed price is a finite number. \<^verbatim>\<open>handleSubmit\<close> returns
  the form's \<^verbatim>\<open>error\<close> field and the state of the app, as for the user form. The four
  checks of its second \<^verbatim>\<open>if\<close> set the same message, so their order does not show.
\<close>

record runtime =
  parseFloat :: "string \<Rightarrow> rat option"
  parseInt :: "string \<Rightarrow> int option"

definition ProductRegistrationForm_handleSubmit ::
  "runtime \<Rightarrow> env \<Rightarrow> string \<Rightarrow> string \<Rightarrow> string \<Rightarrow> string \<Rightarrow> state \<Rightarrow> string \<times> state"
where
  "ProductRegistrationForm_handleSubmit rt e sku' name' price' quantity' s =
     (if sku' = [] \<or> name' = [] \<or> price' = [] \<or> quantity' = []
      then (''All fields are required.'', s)
      else
        (case (parseFloat rt price', parseInt rt quantity') of
           (Some priceNum, Some quantityNum) \<Rightarrow>
             if priceNum \<le> 0 \<or> quantityNum < 0
             then (''Please enter valid numbers for price and quantity.'', s)
             else ([], handleRegisterProduct e sku' name' priceNum quantityNum s)
         | _ \<Rightarrow> (''Please enter valid numbers for price and quantity.'', s)))"

section \<open>Sessions\<close>

text \<open>
  The host runs one handler per event and renders in between, so a session is a sequence of
  commands, each with the identifiers and dates it reads: a submission of the user form,
  a submission of the product form (sku, name, and the texts of the price and quantity
  fields), or an adjustment of a product's stock by a signed delta.
\<close>

datatype command =
    SubmitUser env string string
  | SubmitProduct env string string string string
  | AdjustStock env string int

fun execute :: "runtime \<Rightarrow> command \<Rightarrow> state \<Rightarrow> state" where
  "execute rt (SubmitUser e fullName' email') s =
     snd (UserRegistrationForm_handleSubmit e fullName' email' s)"
| "execute rt (SubmitProduct e sku' name' price' quantity') s =
     snd (ProductRegistrationForm_handleSubmit rt e sku' name' price' quantity' s)"
| "execute rt (AdjustStock e productId' amt) s = handleAdjustStock e productId' amt s"

fun run :: "runtime \<Rightarrow> command list \<Rightarrow> state \<Rightarrow> state" where
  "run rt [] s = s"
| "run rt (c # cs) s = run rt cs (execute rt c s)"

text \<open>
  What a session needs from its surroundings: a registration draws an identifier that no
  product carries yet (\<^verbatim>\<open>crypto.randomUUID\<close>).
\<close>

fun wellFormed :: "runtime \<Rightarrow> command list \<Rightarrow> state \<Rightarrow> bool" where
  "wellFormed rt [] s = True"
| "wellFormed rt (c # cs) s =
     ((case c of
         SubmitProduct e sku' name' price' quantity' \<Rightarrow>
           randomUUID e 0 \<notin> set (map p_id (products s))
       | _ \<Rightarrow> True)
      \<and> wellFormed rt cs (execute rt c s))"

text \<open>
  A session stays within the integers that doubles hold one by one when no adjustment
  takes the quantity of its target above \<open>2^53\<close>.
\<close>

fun safeIntegers :: "runtime \<Rightarrow> command list \<Rightarrow> state \<Rightarrow> bool" where
  "safeIntegers rt [] s = True"
| "safeIntegers rt (c # cs) s =
     ((case c of
         AdjustStock e productId' amt \<Rightarrow>
           (\<forall>p \<in> set (products s).
              p_id p = productId' \<longrightarrow> quantity p + amt \<le> 9007199254740992)
       | _ \<Rightarrow> True)
      \<and> safeIntegers rt cs (execute rt c s))"

section \<open>Paging the ledger (index.tsx, TransactionHistory)\<close>











section \<open>The store adapter (hooks/useLocalStorage.ts)\<close>

text \<open>
  The value \<^verbatim>\<open>JSON.parse\<close> returns, and the two ways the body of the \<^verbatim>\<open>try\<close> can
  throw. \<^verbatim>\<open>JSON.parse\<close> and \<^verbatim>\<open>localStorage.getItem\<close> belong to the runtime and are
  parameters: \<open>getItem key\<close> is \<open>Inr None\<close> for \<^verbatim>\<open>null\<close>.
\<close>

datatype json =
    JNull
  | JBool bool
  | JNumber rat
  | JString string
  | JArray "json list"
  | JObject "(string \<times> json) list"

datatype exn = SyntaxError | SecurityError

text \<open>
  The initialiser of \<^verbatim>\<open>useState\<close> in \<^verbatim>\<open>useLocalStorage\<close>: \<^verbatim>\<open>item ? JSON.parse(item) :
  initialValue\<close> inside \<^verbatim>\<open>try\<close>, and \<^verbatim>\<open>initialValue\<close> in \<^verbatim>\<open>catch\<close>. The empty string is falsy.
  The result is a sum so that "does not raise" is a statement.
\<close>

definition load ::
  "(string \<Rightarrow> exn + json) \<Rightarrow> (string \<Rightarrow> exn + string option) \<Rightarrow> string \<Rightarrow> json \<Rightarrow> exn + json"
where
  "load JSON_parse getItem key initialValue =
     (case (case getItem key of
              Inl x \<Rightarrow> Inl x
            | Inr item \<Rightarrow>
                (case item of
                   None \<Rightarrow> Inr initialValue
                 | Some text \<Rightarrow> if text = [] then Inr initialValue else JSON_parse text))
      of Inl error \<Rightarrow> Inr initialValue
       | Inr v \<Rightarrow> Inr v)"

text \<open>The layout of \<^verbatim>\<open>Product[]\<close> (types.ts) on a parsed value.\<close>

definition hasString :: "(string \<times> json) list \<Rightarrow> string \<Rightarrow> bool" where
  "hasString flds k = (case map_of flds k of Some (JString v) \<Rightarrow> True | _ \<Rightarrow> False)"

definition hasNumber :: "(string \<times> json) list \<Rightarrow> string \<Rightarrow> bool" where
  "hasNumber flds k = (case map_of flds k of Some (JNumber v) \<Rightarrow> True | _ \<Rightarrow> False)"

definition isProduct :: "json \<Rightarrow> bool" where
  "isProduct v =
     (case v of
        JObject flds \<Rightarrow>
          hasString flds ''id'' \<and> hasString flds ''sku'' \<and> hasString flds ''name'' \<and>
          hasNumber flds ''price'' \<and> hasNumber flds ''quantity'' \<and>
          hasString flds ''lastUpdated''
      | _ \<Rightarrow> False)"

definition isProductArray :: "json \<Rightarrow> bool" where
  "isProductArray v = (case v of JArray xs \<Rightarrow> list_all isProduct xs | _ \<Rightarrow> False)"

text \<open>
  \<^verbatim>\<open>JSON.parse\<close> on the texts that are one unsigned integer literal: the value is the
  double nearest to the literal. Other texts are outside this fragment, which answers
  them all with \<open>SyntaxError\<close>; it is used only at a text it covers.
\<close>

fun digitsValue :: "nat \<Rightarrow> string \<Rightarrow> nat option" where
  "digitsValue acc [] = Some acc"
| "digitsValue acc (c # cs) =
     (let d = (of_char c :: nat) in
      if 48 \<le> d \<and> d \<le> 57 then digitsValue (10 * acc + (d - 48)) cs else None)"

definition parseIntegerLiteral :: "string \<Rightarrow> exn + json" where
  "parseIntegerLiteral text =
     (if text = [] \<or> (hd text = CHR ''0'' \<and> length text > 1) then Inl SyntaxError
      else case digitsValue 0 text of
             None \<Rightarrow> Inl SyntaxError
           | Some n \<Rightarrow> Inr (JNumber (of_int (roundDouble (int n)))))"

section \<open>Sample data\<close>

text \<open>An environment whose identifiers and dates are told apart by the call number.\<close>

definition sampleEnv :: "string \<Rightarrow> env" where
  "sampleEnv tag =
     \<lparr>randomUUID = (\<lambda>k. tag @ replicate k CHR ''+''),
      now = (\<lambda>k. ''T'' @ tag @ replicate k CHR ''+'')\<rparr>"

text \<open>The state after registering the widget of the spec's scenario.\<close>

definition widgetState :: state where
  "widgetState = handleRegisterProduct (sampleEnv ''w'') ''A1'' ''Widget'' (999 / 100) 3 emptyState"

text \<open>The widget after \<open>adjustStock(id, +2)\<close>, and the scenario's two adjustments.\<close>

definition widgetState5 :: state where
  "widgetState5 = handleAdjustStock (sampleEnv ''a'') ''w'' 2 widgetState"

definition sampleCalls :: "(env \<times> string \<times> int) list" where
  "sampleCalls = [(sampleEnv ''a'', ''w'', 2), (sampleEnv ''b'', ''w'', - 10)]"

text \<open>
  A runtime whose two parsers read unsigned decimal numerals without a fraction (the
  integer parser gives the double nearest to the numeral), and the spec's scenario as a
  session (with the price 10), followed by one accepted decrease.
\<close>

definition sampleRuntime :: runtime where
  "sampleRuntime =
     \<lparr>parseFloat = (\<lambda>t. if t = [] then None else map_option of_nat (digitsValue 0 t)),
      parseInt = (\<lambda>t. if t = [] then None
                     else map_option (\<lambda>n. roundDouble (int n)) (digitsValue 0 t))\<rparr>"

definition sampleSession :: "command list" where
  "sampleSession =
     [SubmitProduct (sampleEnv ''w'') ''A1'' ''Widget'' ''10'' ''3'',
      AdjustStock (sampleEnv ''a'') ''w'' 2,
      AdjustStock (sampleEnv ''b'') ''w'' (- 10),
      AdjustStock (sampleEnv ''c'') ''w'' (- 1)]"

text \<open>
  A session at the edge of the integers that doubles hold one by one: a product
  registered through the form with the quantity \<open>2^53\<close>, then one press of \<open>+\<close> and one
  of \<open>-\<close>; and the state after the registration.
\<close>

definition bigSession :: "command list" where
  "bigSession =
     [SubmitProduct (sampleEnv ''w'') ''A1'' ''Widget'' ''10'' ''9007199254740992'',
      AdjustStock (sampleEnv ''a'') ''w'' 1,
      AdjustStock (sampleEnv ''b'') ''w'' (- 1)]"

definition bigState :: state where
  "bigState = run sampleRuntime (take 1 bigSession) emptyState"


definition sampleStorage :: "string \<Rightarrow> exn + string option" where
  "sampleStorage key = Inr (if key = ''products'' then Some ''42'' else None)"

definition corruptStorage :: "string \<Rightarrow> exn + string option" where
  "corruptStorage key = Inr (Some ''{broken'')"

section \<open>Properties of the stock adjustment\<close>

lemma ulp_small: "n < 9007199254740992 \<Longrightarrow> ulp n = 1"
  by (simp add: ulp.simps[of n])

lemma ulp_pos: "0 < ulp n"
proof (induction n rule: ulp.induct)
  case (1 n)
  show ?case
  proof (cases "n < 9007199254740992")
    case True
    then show ?thesis by (simp add: ulp.simps[of n])
  next
    case False
    with "1.IH" have "0 < ulp (n div 2)" by simp
    with False show ?thesis by (simp add: ulp.simps[of n])
  qed
qed

lemma ulp_le: "9007199254740992 \<le> n \<Longrightarrow> 4503599627370496 * ulp n \<le> n"
proof (induction n rule: ulp.induct)
  case (1 n)
  show ?case
  proof (cases "n div 2 < 9007199254740992")
    case True
    with "1.prems" have "ulp n = 2" by (simp add: ulp.simps[of n] ulp_small)
    with "1.prems" show ?thesis by simp
  next
    case False
    with "1.IH" "1.prems" have "4503599627370496 * ulp (n div 2) \<le> n div 2" by simp
    moreover from "1.prems" have "ulp n = 2 * ulp (n div 2)" by (simp add: ulp.simps[of n])
    ultimately show ?thesis by simp
  qed
qed

lemma ulp_2_53: "ulp 9007199254740992 = 2"
  by (simp add: ulp.simps[of 9007199254740992] ulp_small)

lemma roundNat_exact: "n \<le> 9007199254740992 \<Longrightarrow> roundNat n = n"
proof (cases "n = 9007199254740992")
  case True
  then show ?thesis by (simp add: roundNat_def ulp_2_53 Let_def)
next
  case False
  assume "n \<le> 9007199254740992"
  with False have "n < 9007199254740992" by simp
  then show ?thesis by (simp add: roundNat_def ulp_small Let_def)
qed

lemma roundDouble_exact: "\<bar>x\<bar> \<le> 9007199254740992 \<Longrightarrow> roundDouble x = x"
proof -
  assume "\<bar>x\<bar> \<le> 9007199254740992"
  then have "nat \<bar>x\<bar> \<le> 9007199254740992" by simp
  then have "roundDouble x = sgn x * \<bar>x\<bar>"
    by (simp add: roundDouble_def roundNat_exact)
  then show ?thesis by (simp add: sgn_if)
qed

lemma quotient_pos: "0 < n \<Longrightarrow> 0 < n div ulp n"
proof (cases "n < 9007199254740992")
  case True
  assume "0 < n"
  with True show ?thesis by (simp add: ulp_small)
next
  case False
  then have "4503599627370496 * ulp n \<le> n" by (simp add: ulp_le)
  then have "ulp n \<le> n" by simp
  with ulp_pos[of n] show ?thesis by (simp add: div_greater_zero_iff)
qed

lemma roundNat_pos: "0 < n \<Longrightarrow> 0 < roundNat n"
  using quotient_pos[of n] ulp_pos[of n] by (simp add: roundNat_def Let_def)

lemma roundDouble_neg: "roundDouble x < 0 \<longleftrightarrow> x < 0"
proof (cases "x < 0")
  case True
  then have "0 < roundNat (nat \<bar>x\<bar>)" by (simp add: roundNat_pos)
  with True show ?thesis by (simp add: roundDouble_def sgn_if)
next
  case False
  then have "0 \<le> sgn x * int (roundNat (nat \<bar>x\<bar>))" by (simp add: sgn_if)
  with False show ?thesis by (simp add: roundDouble_def)
qed

lemma jsAdd_neg: "jsAdd a b < 0 \<longleftrightarrow> a + b < 0"
  by (simp add: jsAdd_def roundDouble_neg)

lemma jsAdd_exact: "\<bar>a + b\<bar> \<le> 9007199254740992 \<Longrightarrow> jsAdd a b = a + b"
  by (simp add: jsAdd_def roundDouble_exact)

lemma jsAdd_nonneg: "0 \<le> a + b \<Longrightarrow> 0 \<le> jsAdd a b"
  using jsAdd_neg[of a b] by simp

lemma adjustMap_skip:
  "p_id p \<noteq> i \<or> quantity p + a < 0 \<Longrightarrow>
   adjustMap e i a st (p # ps) k cur =
     (p # fst (adjustMap e i a st ps k cur), snd (adjustMap e i a st ps k cur))"
  by (auto simp: Let_def jsAdd_neg split: prod.splits)

lemma adjustMap_hit:
  "p_id p = i \<Longrightarrow> 0 \<le> quantity p + a \<Longrightarrow>
   adjustMap e i a st (p # ps) k cur =
     (let u = p\<lparr>quantity := jsAdd (quantity p) a, lastUpdated := now e (2 * k)\<rparr>;
          r = adjustMap e i a st ps (Suc k)
                (addTransaction (randomUUID e k) (now e (2 * k + 1)) st u
                   (if a > 0 then Increase else Decrease) a)
      in (u # fst r, snd r))"
  by (simp add: Let_def jsAdd_neg split: prod.splits)

declare adjustMap.simps(2) [simp del]

lemma adjustMap_length: "length (fst (adjustMap e i a st ps k cur)) = length ps"
proof (induction ps arbitrary: k cur)
  case Nil
  show ?case by simp
next
  case (Cons p ps)
  show ?case
  proof (cases "p_id p = i \<and> 0 \<le> quantity p + a")
    case True
    then show ?thesis by (simp add: adjustMap_hit Let_def Cons.IH)
  next
    case False
    then have "p_id p \<noteq> i \<or> quantity p + a < 0" by auto
    then show ?thesis by (simp add: adjustMap_skip Cons.IH)
  qed
qed

lemma adjustMap_rejected:
  "\<not> accepted ps i a \<Longrightarrow> adjustMap e i a st ps k cur = (ps, k, cur)"
proof (induction ps)
  case Nil
  show ?case by simp
next
  case (Cons p ps)
  then have 1: "p_id p \<noteq> i \<or> quantity p + a < 0" and 2: "\<not> accepted ps i a"
    by (auto simp: accepted_def)
  from adjustMap_skip[OF 1] Cons.IH[OF 2] show ?case by simp
qed


lemma adjustMap_nth:
  "n < length ps \<Longrightarrow>
   fst (adjustMap e i a st ps k cur) ! n = ps ! n \<or>
   (p_id (ps ! n) = i \<and> 0 \<le> quantity (ps ! n) + a \<and>
    (\<exists>d. fst (adjustMap e i a st ps k cur) ! n =
          (ps ! n)\<lparr>quantity := jsAdd (quantity (ps ! n)) a, lastUpdated := d\<rparr>))"
proof (induction ps arbitrary: k cur n)
  case Nil
  then show ?case by simp
next
  case (Cons p ps)
  show ?case
  proof (cases "p_id p = i \<and> 0 \<le> quantity p + a")
    case True
    show ?thesis
    proof (cases n)
      case 0
      with True show ?thesis by (auto simp: adjustMap_hit Let_def)
    next
      case (Suc m)
      with Cons.prems have "m < length ps" by simp
      from Cons.IH[OF this] Suc True show ?thesis by (simp add: adjustMap_hit Let_def)
    qed
  next
    case False
    then have sk: "p_id p \<noteq> i \<or> quantity p + a < 0" by auto
    show ?thesis
    proof (cases n)
      case 0
      then show ?thesis by (simp add: adjustMap_skip[OF sk])
    next
      case (Suc m)
      with Cons.prems have "m < length ps" by simp
      from Cons.IH[OF this] Suc show ?thesis by (simp add: adjustMap_skip[OF sk])
    qed
  qed
qed

lemma adjustMap_ledger:
  "accepted ps i a \<Longrightarrow>
   \<exists>t. snd (snd (adjustMap e i a st ps k cur)) = t # st \<and> productId t = i \<and>
       ttype t = (if a > 0 then Increase else Decrease) \<and> amount t = \<bar>a\<bar>"
proof (induction ps arbitrary: k cur)
  case Nil
  then show ?case by (simp add: accepted_def)
next
  case (Cons p ps)
  show ?case
  proof (cases "p_id p = i \<and> 0 \<le> quantity p + a")
    case True
    show ?thesis
    proof (cases "accepted ps i a")
      case True
      from Cons.IH[OF True] \<open>p_id p = i \<and> 0 \<le> quantity p + a\<close> show ?thesis
        by (simp add: adjustMap_hit Let_def)
    next
      case False
      with True show ?thesis
        by (simp add: adjustMap_hit Let_def adjustMap_rejected addTransaction_def)
    qed
  next
    case False
    then have sk: "p_id p \<noteq> i \<or> quantity p + a < 0" by auto
    with Cons.prems have "accepted ps i a" by (auto simp: accepted_def)
    from Cons.IH[OF this] show ?thesis by (simp add: adjustMap_skip[OF sk])
  qed
qed

lemma map_other_ids:
  "\<forall>y \<in> set xs. p_id y \<noteq> i \<Longrightarrow> map (\<lambda>x. if p_id x = i then f x else x) xs = xs"
  by (induction xs) auto

lemma adjustMap_unique_map:
  "distinct (map p_id ps) \<Longrightarrow> p \<in> set ps \<Longrightarrow> 0 \<le> quantity p + a \<Longrightarrow>
   adjustMap e (p_id p) a st ps k cur =
     (map (\<lambda>x. if p_id x = p_id p
               then x\<lparr>quantity := jsAdd (quantity x) a, lastUpdated := now e (2 * k)\<rparr> else x) ps,
      Suc k,
      addTransaction (randomUUID e k) (now e (2 * k + 1)) st
        (p\<lparr>quantity := jsAdd (quantity p) a, lastUpdated := now e (2 * k)\<rparr>)
        (if a > 0 then Increase else Decrease) a)"
proof (induction ps)
  case Nil
  then show ?case by simp
next
  case (Cons x xs)
  show ?case
  proof (cases "x = p")
    case True
    from Cons.prems(1) True have "p_id p \<notin> p_id ` set xs" by simp
    then have other: "\<forall>y \<in> set xs. p_id y \<noteq> p_id p" by (metis imageI)
    then have "\<not> accepted xs (p_id p) a" by (auto simp: accepted_def)
    then have r: "\<And>k cur. adjustMap e (p_id p) a st xs k cur = (xs, k, cur)"
      by (rule adjustMap_rejected)
    show ?thesis using True Cons.prems(3) r map_other_ids[OF other]
      by (simp add: adjustMap_hit Let_def)
  next
    case False
    with Cons.prems have in_xs: "p \<in> set xs" and d: "distinct (map p_id xs)"
      and ne: "p_id x \<noteq> p_id p"
      by auto
    from ne have sk: "p_id x \<noteq> p_id p \<or> quantity x + a < 0" by simp
    from Cons.IH[OF d in_xs Cons.prems(3)] show ?thesis
      by (simp add: adjustMap_skip[OF sk] ne)
  qed
qed

lemma map_unique_update:
  "distinct (map p_id ps) \<Longrightarrow> n < length ps \<Longrightarrow>
   map (\<lambda>x. if p_id x = p_id (ps ! n) then f x else x) ps = ps[n := f (ps ! n)]"
proof (rule nth_equalityI)
  show "length (map (\<lambda>x. if p_id x = p_id (ps ! n) then f x else x) ps) = length (ps[n := f (ps ! n)])"
    by simp
next
  fix m
  assume d: "distinct (map p_id ps)" and n: "n < length ps"
    and "m < length (map (\<lambda>x. if p_id x = p_id (ps ! n) then f x else x) ps)"
  then have m: "m < length ps" by simp
  have "p_id (ps ! m) = p_id (ps ! n) \<longleftrightarrow> m = n"
    using d m n by (metis distinct_conv_nth length_map nth_map)
  with m n show "map (\<lambda>x. if p_id x = p_id (ps ! n) then f x else x) ps ! m = ps[n := f (ps ! n)] ! m"
    by (simp add: nth_list_update)
qed

lemma handleAdjustStock_rejected:
  "\<not> accepted (products s) i a \<Longrightarrow> handleAdjustStock e i a s = s"
  by (simp add: handleAdjustStock_def adjustMap_rejected)

lemma handleAdjustStock_products:
  "products (handleAdjustStock e i a s) =
     fst (adjustMap e i a (transactions s) (products s) 0 (transactions s))"
  by (simp add: handleAdjustStock_def split: prod.splits)

lemma handleAdjustStock_transactions:
  "transactions (handleAdjustStock e i a s) =
     snd (snd (adjustMap e i a (transactions s) (products s) 0 (transactions s)))"
  by (simp add: handleAdjustStock_def split: prod.splits)

lemma handleAdjustStock_users: "users (handleAdjustStock e i a s) = users s"
  by (simp add: handleAdjustStock_def split: prod.splits)

lemma handleAdjustStock_nonneg:
  assumes "\<forall>p \<in> set (products s). 0 \<le> quantity p"
  shows "\<forall>p \<in> set (products (handleAdjustStock e i a s)). 0 \<le> quantity p"
proof
  fix p
  assume "p \<in> set (products (handleAdjustStock e i a s))"
  then obtain n where n: "n < length (products s)"
    and p: "p = fst (adjustMap e i a (transactions s) (products s) 0 (transactions s)) ! n"
    by (auto simp: handleAdjustStock_products in_set_conv_nth adjustMap_length)
  from n assms have "0 \<le> quantity (products s ! n)" by simp
  with adjustMap_nth[OF n, of e i a "transactions s" 0 "transactions s"] p
  show "0 \<le> quantity p" by (auto simp: jsAdd_nonneg)
qed

lemma handleAdjustStock_entries:
  "length (adjustmentEntries (transactions (handleAdjustStock e i a s)) x) =
   length (adjustmentEntries (transactions s) x)
     + (if i = x \<and> accepted (products s) i a then 1 else 0)"
proof (cases "accepted (products s) i a")
  case True
  from adjustMap_ledger[OF True, of e "transactions s" 0 "transactions s"]
  obtain t where "transactions (handleAdjustStock e i a s) = t # transactions s"
    and "productId t = i" and "ttype t = (if a > 0 then Increase else Decrease)"
    by (auto simp: handleAdjustStock_transactions)
  with True show ?thesis by (simp add: adjustmentEntries_def)
next
  case False
  then show ?thesis by (simp add: handleAdjustStock_rejected)
qed

lemma adjustAll_nonneg:
  "\<forall>p \<in> set (products s). 0 \<le> quantity p \<Longrightarrow>
   \<forall>p \<in> set (products (adjustAll cs s)). 0 \<le> quantity p"
proof (induction cs arbitrary: s)
  case Nil
  then show ?case by simp
next
  case (Cons c cs)
  obtain e i a where c: "c = (e, i, a)" by (cases c)
  from Cons.IH[OF handleAdjustStock_nonneg[OF Cons.prems]] c show ?case by simp
qed

lemma adjustAll_entries:
  "length (adjustmentEntries (transactions (adjustAll cs s)) x) =
   length (adjustmentEntries (transactions s) x) + acceptedCalls cs s x"
proof (induction cs arbitrary: s)
  case Nil
  show ?case by simp
next
  case (Cons c cs)
  obtain e i a where c: "c = (e, i, a)" by (cases c)
  show ?case
    unfolding c adjustAll.simps acceptedCalls.simps Cons.IH handleAdjustStock_entries
    by simp
qed

lemma widgetState_eq:
  "widgetState =
     \<lparr>users = [],
      products = [\<lparr>p_id = ''w'', p_sku = ''A1'', p_name = ''Widget'', price = 999 / 100,
                   quantity = 3, lastUpdated = ''Tw''\<rparr>],
      transactions = [\<lparr>t_id = ''w+'', productId = ''w'', sku = ''A1'', productName = ''Widget'',
                       ttype = Initial, amount = 3, timestamp = ''Tw+''\<rparr>]\<rparr>"
  by (simp add: widgetState_def handleRegisterProduct_def sampleEnv_def emptyState_def
      addTransaction_def Let_def)

lemma widgetState5_eq:
  "widgetState5 =
     \<lparr>users = [],
      products = [\<lparr>p_id = ''w'', p_sku = ''A1'', p_name = ''Widget'', price = 999 / 100,
                   quantity = 5, lastUpdated = ''Ta''\<rparr>],
      transactions = [\<lparr>t_id = ''a'', productId = ''w'', sku = ''A1'', productName = ''Widget'',
                       ttype = Increase, amount = 2, timestamp = ''Ta+''\<rparr>,
                      \<lparr>t_id = ''w+'', productId = ''w'', sku = ''A1'', productName = ''Widget'',
                       ttype = Initial, amount = 3, timestamp = ''Tw+''\<rparr>]\<rparr>"
  by (simp add: widgetState5_def widgetState_eq handleAdjustStock_def adjustMap.simps(2) jsAdd_exact
      sampleEnv_def addTransaction_def)

lemma widgetState5_rejects:
  "handleAdjustStock (sampleEnv ''b'') ''w'' (- 10) widgetState5 = widgetState5"
  by (simp add: widgetState5_eq handleAdjustStock_def adjustMap.simps(2) jsAdd_exact)

text \<open>
  C7. For a product id that no product of the table carries, and any signed delta,
  \<^verbatim>\<open>handleAdjustStock\<close> returns the state it was given: the product table is the same (no
  product is created), the ledger is the same (no transaction is appended), and the
  result is a state, not an error.
\<close>

theorem adjustStock_unknown_product_noop:
  "productId' \<notin> set (map p_id (products s)) \<Longrightarrow> handleAdjustStock e productId' amt s = s"
proof -
  assume "productId' \<notin> set (map p_id (products s))"
  then have "\<not> accepted (products s) productId' amt"
    by (auto simp: accepted_def)
  then show ?thesis by (rule handleAdjustStock_rejected)
qed

theorem adjustStock_unknown_product_noop_witness:
  "''ghost'' \<notin> set (map p_id (products widgetState)) \<and>
   handleAdjustStock (sampleEnv ''a'') ''ghost'' 1 widgetState = widgetState"
proof -
  have h: "''ghost'' \<notin> set (map p_id (products widgetState))"
    by (simp add: widgetState_eq)
  from h adjustStock_unknown_product_noop[OF h] show ?thesis by simp
qed

text \<open>
  C2. In a table whose ids are unique (the data model's identity of a product), for a
  product with quantity \<open>q\<close> and a delta \<open>d\<close> with \<open>q + d < 0\<close>,
  \<^verbatim>\<open>handleAdjustStock\<close> on that product returns the state unchanged: quantity and
  \<^verbatim>\<open>lastUpdated\<close> keep their values, and the ledger has the same length and contents.
  (In any table the state is unchanged when no product carrying the id passes the guard,
  which is \<open>handleAdjustStock_rejected\<close>; with unique ids that is \<open>q + d < 0\<close> for the
  one product.)
\<close>

theorem adjustStock_negative_rejected:
  assumes "distinct (map p_id (products s))"
    and "p \<in> set (products s)"
    and "quantity p + d < 0"
  shows "handleAdjustStock e (p_id p) d s = s"
proof -
  have "\<not> accepted (products s) (p_id p) d"
  proof
    assume "accepted (products s) (p_id p) d"
    then obtain p' where p': "p' \<in> set (products s)" "p_id p' = p_id p" "0 \<le> quantity p' + d"
      by (auto simp: accepted_def)
    from assms(1) assms(2) p'(1) p'(2) have "p' = p"
      by (meson distinct_map inj_onD)
    with p'(3) assms(3) show False by simp
  qed
  then show ?thesis by (rule handleAdjustStock_rejected)
qed

theorem adjustStock_negative_rejected_witness:
  "distinct (map p_id (products widgetState5)) \<and>
   hd (products widgetState5) \<in> set (products widgetState5) \<and>
   quantity (hd (products widgetState5)) + (- 10) < 0 \<and>
   handleAdjustStock (sampleEnv ''b'') ''w'' (- 10) widgetState5 = widgetState5 \<and>
   length (transactions widgetState5) = 2"
proof -
  have 1: "distinct (map p_id (products widgetState5))" by (simp add: widgetState5_eq)
  have 2: "hd (products widgetState5) \<in> set (products widgetState5)" by (simp add: widgetState5_eq)
  have 3: "quantity (hd (products widgetState5)) + (- 10) < 0" by (simp add: widgetState5_eq)
  have 4: "p_id (hd (products widgetState5)) = ''w''" by (simp add: widgetState5_eq)
  from adjustStock_negative_rejected[OF 1 2 3, of "sampleEnv ''b''"] 1 2 3 4 show ?thesis
    by (simp add: widgetState5_eq)
qed


lemma handleAdjustStock_accepted:
  assumes "distinct (map p_id (products s))"
    and "n < length (products s)"
    and "p = products s ! n"
    and "0 \<le> quantity p + d"
  shows "handleAdjustStock e (p_id p) d s =
           s\<lparr>products :=
               (products s)[n := p\<lparr>quantity := jsAdd (quantity p) d, lastUpdated := now e 0\<rparr>],
             transactions :=
               \<lparr>t_id = randomUUID e 0, productId = p_id p, sku = p_sku p, productName = p_name p,
                ttype = (if d > 0 then Increase else Decrease), amount = \<bar>d\<bar>,
                timestamp = now e 1\<rparr> # transactions s\<rparr>"
proof -
  from assms(2,3) have mem: "p \<in> set (products s)" by simp
  have "adjustMap e (p_id p) d (transactions s) (products s) 0 (transactions s) =
          (map (\<lambda>x. if p_id x = p_id p
                    then x\<lparr>quantity := jsAdd (quantity x) d, lastUpdated := now e (2 * 0)\<rparr>
                    else x)
             (products s),
           Suc 0,
           addTransaction (randomUUID e 0) (now e (2 * 0 + 1)) (transactions s)
             (p\<lparr>quantity := jsAdd (quantity p) d, lastUpdated := now e (2 * 0)\<rparr>)
             (if d > 0 then Increase else Decrease) d)"
    by (rule adjustMap_unique_map[OF assms(1) mem assms(4)])
  moreover have "map (\<lambda>x. if p_id x = p_id p
                    then x\<lparr>quantity := jsAdd (quantity x) d, lastUpdated := now e (2 * 0)\<rparr>
                    else x)
             (products s) =
        (products s)[n := p\<lparr>quantity := jsAdd (quantity p) d, lastUpdated := now e 0\<rparr>]"
    using map_unique_update[OF assms(1) assms(2),
        of "\<lambda>x. x\<lparr>quantity := jsAdd (quantity x) d, lastUpdated := now e (2 * 0)\<rparr>"] assms(3)
    by simp
  ultimately show ?thesis
    by (simp add: handleAdjustStock_def addTransaction_def)
qed

lemma bigState_eq:
  "bigState =
     \<lparr>users = [],
      products = [\<lparr>p_id = ''w'', p_sku = ''A1'', p_name = ''Widget'', price = 10,
                   quantity = 9007199254740992, lastUpdated = ''Tw''\<rparr>],
      transactions = [\<lparr>t_id = ''w+'', productId = ''w'', sku = ''A1'', productName = ''Widget'',
                       ttype = Initial, amount = 9007199254740992, timestamp = ''Tw+''\<rparr>]\<rparr>"
  by (simp add: bigState_def bigSession_def sampleRuntime_def roundDouble_exact
        ProductRegistrationForm_handleSubmit_def handleRegisterProduct_def sampleEnv_def
        emptyState_def addTransaction_def Let_def)

lemma jsAdd_big_plus: "jsAdd 9007199254740992 1 = 9007199254740992"
  by (simp add: jsAdd_def roundDouble_def roundNat_def ulp.simps[of 9007199254740993]
        ulp_small Let_def)

lemma bigState_plus:
  "handleAdjustStock (sampleEnv ''a'') ''w'' 1 bigState =
     \<lparr>users = [],
      products = [\<lparr>p_id = ''w'', p_sku = ''A1'', p_name = ''Widget'', price = 10,
                   quantity = 9007199254740992, lastUpdated = ''Ta''\<rparr>],
      transactions = [\<lparr>t_id = ''a'', productId = ''w'', sku = ''A1'', productName = ''Widget'',
                       ttype = Increase, amount = 1, timestamp = ''Ta+''\<rparr>,
                      \<lparr>t_id = ''w+'', productId = ''w'', sku = ''A1'', productName = ''Widget'',
                       ttype = Initial, amount = 9007199254740992, timestamp = ''Tw+''\<rparr>]\<rparr>"
  by (simp add: bigState_eq handleAdjustStock_def adjustMap.simps(2) jsAdd_big_plus jsAdd_neg
        sampleEnv_def addTransaction_def)

text \<open>
  C3, as stated, fails above the integers that doubles hold one by one. The product
  registered with quantity \<open>q = 2^53\<close> has unique id, and \<open>d = 1\<close> gives \<open>q + d \<ge> 0\<close>: the
  call is accepted and puts an increase of 1 in front of the ledger, but the quantity
  stays \<open>2^53\<close>, which is not \<open>q + d\<close>.
\<close>

theorem adjustStock_beyond_safe_integers_counterexample:
  "distinct (map p_id (products bigState)) \<and>
   quantity (products bigState ! 0) = 9007199254740992 \<and>
   p_id (products bigState ! 0) = ''w'' \<and>
   (0::int) \<le> 9007199254740992 + 1 \<and>
   quantity (products (handleAdjustStock (sampleEnv ''a'') ''w'' 1 bigState) ! 0)
     = 9007199254740992 \<and>
   quantity (products (handleAdjustStock (sampleEnv ''a'') ''w'' 1 bigState) ! 0)
     \<noteq> quantity (products bigState ! 0) + 1 \<and>
   map ttype (transactions (handleAdjustStock (sampleEnv ''a'') ''w'' 1 bigState))
     = [Increase, Initial] \<and>
   amount (hd (transactions (handleAdjustStock (sampleEnv ''a'') ''w'' 1 bigState))) = 1"
  by (simp add: bigState_plus) (simp add: bigState_eq)

text \<open>
  C3, amended. In a table whose ids are unique, for the product \<open>p\<close> at position \<open>n\<close> with
  quantity \<open>q\<close> and a delta \<open>d\<close> with \<open>q + d \<ge> 0\<close>, \<^verbatim>\<open>handleAdjustStock\<close> replaces \<open>p\<close> by
  \<open>p\<close> with \<^verbatim>\<open>lastUpdated\<close> set to the current date and the quantity set to \<open>q + d\<close> as
  doubles add it, which is \<open>q + d\<close> itself whenever \<open>q + d \<le> 2^53\<close>; and it puts exactly
  one new transaction in front of the otherwise unchanged ledger: its type is increase
  when \<open>d > 0\<close> and decrease otherwise (also for \<open>d = 0\<close>), its amount is \<open>|d|\<close>, and its
  \<^verbatim>\<open>productId\<close>, \<^verbatim>\<open>sku\<close> and \<^verbatim>\<open>productName\<close> are those of the updated product.
\<close>

theorem adjustStock_accepted_effect:
  assumes "distinct (map p_id (products s))"
    and "n < length (products s)"
    and "p = products s ! n"
    and "0 \<le> quantity p + d"
  shows "handleAdjustStock e (p_id p) d s =
           s\<lparr>products :=
               (products s)[n := p\<lparr>quantity := jsAdd (quantity p) d, lastUpdated := now e 0\<rparr>],
             transactions :=
               \<lparr>t_id = randomUUID e 0, productId = p_id p, sku = p_sku p, productName = p_name p,
                ttype = (if d > 0 then Increase else Decrease), amount = \<bar>d\<bar>,
                timestamp = now e 1\<rparr> # transactions s\<rparr> \<and>
         (quantity p + d \<le> 9007199254740992 \<longrightarrow>
            handleAdjustStock e (p_id p) d s =
              s\<lparr>products :=
                  (products s)[n := p\<lparr>quantity := quantity p + d, lastUpdated := now e 0\<rparr>],
                transactions :=
                  \<lparr>t_id = randomUUID e 0, productId = p_id p, sku = p_sku p,
                   productName = p_name p, ttype = (if d > 0 then Increase else Decrease),
                   amount = \<bar>d\<bar>, timestamp = now e 1\<rparr> # transactions s\<rparr>)"
proof (intro conjI impI)
  show gen: "handleAdjustStock e (p_id p) d s =
           s\<lparr>products :=
               (products s)[n := p\<lparr>quantity := jsAdd (quantity p) d, lastUpdated := now e 0\<rparr>],
             transactions :=
               \<lparr>t_id = randomUUID e 0, productId = p_id p, sku = p_sku p, productName = p_name p,
                ttype = (if d > 0 then Increase else Decrease), amount = \<bar>d\<bar>,
                timestamp = now e 1\<rparr> # transactions s\<rparr>"
    by (rule handleAdjustStock_accepted[OF assms])
  assume "quantity p + d \<le> 9007199254740992"
  with assms(4) have "jsAdd (quantity p) d = quantity p + d"
    by (simp add: jsAdd_exact)
  with gen show "handleAdjustStock e (p_id p) d s =
              s\<lparr>products :=
                  (products s)[n := p\<lparr>quantity := quantity p + d, lastUpdated := now e 0\<rparr>],
                transactions :=
                  \<lparr>t_id = randomUUID e 0, productId = p_id p, sku = p_sku p,
                   productName = p_name p, ttype = (if d > 0 then Increase else Decrease),
                   amount = \<bar>d\<bar>, timestamp = now e 1\<rparr> # transactions s\<rparr>"
    by simp
qed

theorem adjustStock_accepted_effect_witness:
  "distinct (map p_id (products widgetState)) \<and> 0 < length (products widgetState) \<and>
   0 \<le> quantity (products widgetState ! 0) + 2 \<and>
   quantity (products widgetState ! 0) + 2 \<le> 9007199254740992 \<and>
   handleAdjustStock (sampleEnv ''a'') ''w'' 2 widgetState = widgetState5 \<and>
   quantity (products widgetState5 ! 0) = 5 \<and>
   map ttype (transactions widgetState5) = [Increase, Initial]"
proof -
  have 1: "distinct (map p_id (products widgetState))" by (simp add: widgetState_eq)
  have 2: "0 < length (products widgetState)" by (simp add: widgetState_eq)
  have 3: "0 \<le> quantity (products widgetState ! 0) + 2" by (simp add: widgetState_eq)
  have 4: "p_id (products widgetState ! 0) = ''w''" by (simp add: widgetState_eq)
  have 5: "quantity (products widgetState ! 0) + 2 \<le> 9007199254740992"
    by (simp add: widgetState_eq)
  from adjustStock_accepted_effect[OF 1 2 refl 3, of "sampleEnv ''a''"] 5
  have "handleAdjustStock (sampleEnv ''a'') (p_id (products widgetState ! 0)) 2 widgetState =
      widgetState\<lparr>products :=
          (products widgetState)[0 := (products widgetState ! 0)
             \<lparr>quantity := quantity (products widgetState ! 0) + 2,
              lastUpdated := now (sampleEnv ''a'') 0\<rparr>],
        transactions :=
          \<lparr>t_id = randomUUID (sampleEnv ''a'') 0, productId = p_id (products widgetState ! 0),
           sku = p_sku (products widgetState ! 0), productName = p_name (products widgetState ! 0),
           ttype = (if (2::int) > 0 then Increase else Decrease), amount = \<bar>2\<bar>,
           timestamp = now (sampleEnv ''a'') 1\<rparr> # transactions widgetState\<rparr>"
    by blast
  then have "handleAdjustStock (sampleEnv ''a'') ''w'' 2 widgetState = widgetState5"
    unfolding 4 by (simp add: widgetState5_eq) (simp add: widgetState_eq sampleEnv_def)
  with 1 2 3 5 show ?thesis by (simp add: widgetState5_eq)
qed

text \<open>
  C10. Frame of \<^verbatim>\<open>handleAdjustStock\<close>, for every call, accepted or rejected: the users
  table is unchanged; the products list keeps its length; at every position the id, sku,
  name and price are unchanged (so the order is kept); and a product whose id is not the
  target's is unchanged as a whole.
\<close>

theorem adjustStock_frame:
  "users (handleAdjustStock e i d s) = users s \<and>
   length (products (handleAdjustStock e i d s)) = length (products s) \<and>
   (\<forall>n < length (products s).
      p_id (products (handleAdjustStock e i d s) ! n) = p_id (products s ! n) \<and>
      p_sku (products (handleAdjustStock e i d s) ! n) = p_sku (products s ! n) \<and>
      p_name (products (handleAdjustStock e i d s) ! n) = p_name (products s ! n) \<and>
      price (products (handleAdjustStock e i d s) ! n) = price (products s ! n) \<and>
      (p_id (products s ! n) \<noteq> i \<longrightarrow>
         products (handleAdjustStock e i d s) ! n = products s ! n))"
proof (intro conjI allI impI)
  show "users (handleAdjustStock e i d s) = users s"
    by (rule handleAdjustStock_users)
  show "length (products (handleAdjustStock e i d s)) = length (products s)"
    by (simp add: handleAdjustStock_products adjustMap_length)
next
  fix n
  assume n: "n < length (products s)"
  note step = adjustMap_nth[OF n, of e i d "transactions s" 0 "transactions s"]
  from step show "p_id (products (handleAdjustStock e i d s) ! n) = p_id (products s ! n)"
    by (auto simp: handleAdjustStock_products)
  from step show "p_sku (products (handleAdjustStock e i d s) ! n) = p_sku (products s ! n)"
    by (auto simp: handleAdjustStock_products)
  from step show "p_name (products (handleAdjustStock e i d s) ! n) = p_name (products s ! n)"
    by (auto simp: handleAdjustStock_products)
  from step show "price (products (handleAdjustStock e i d s) ! n) = price (products s ! n)"
    by (auto simp: handleAdjustStock_products)
  assume "p_id (products s ! n) \<noteq> i"
  with step show "products (handleAdjustStock e i d s) ! n = products s ! n"
    by (auto simp: handleAdjustStock_products)
qed


theorem adjustStock_frame_witness:
  "users (handleAdjustStock (sampleEnv ''a'') ''w'' 2 widgetState) = users widgetState \<and>
   length (products (handleAdjustStock (sampleEnv ''a'') ''w'' 2 widgetState)) = 1 \<and>
   p_id (products (handleAdjustStock (sampleEnv ''a'') ''w'' 2 widgetState) ! 0) = ''w'' \<and>
   p_sku (products (handleAdjustStock (sampleEnv ''a'') ''w'' 2 widgetState) ! 0) = ''A1'' \<and>
   p_name (products (handleAdjustStock (sampleEnv ''a'') ''w'' 2 widgetState) ! 0) = ''Widget'' \<and>
   price (products (handleAdjustStock (sampleEnv ''a'') ''w'' 2 widgetState) ! 0) = 999 / 100 \<and>
   products (handleAdjustStock (sampleEnv ''a'') ''ghost'' 2 widgetState) ! 0 =
     products widgetState ! 0"
proof -
  have len: "0 < length (products widgetState)" by (simp add: widgetState_eq)
  have other: "p_id (products widgetState ! 0) \<noteq> ''ghost''" by (simp add: widgetState_eq)
  from adjustStock_frame[of "sampleEnv ''a''" "''w''" 2 widgetState] len
  have "users (handleAdjustStock (sampleEnv ''a'') ''w'' 2 widgetState) = users widgetState \<and>
        length (products (handleAdjustStock (sampleEnv ''a'') ''w'' 2 widgetState)) =
          length (products widgetState) \<and>
        p_id (products (handleAdjustStock (sampleEnv ''a'') ''w'' 2 widgetState) ! 0) =
          p_id (products widgetState ! 0) \<and>
        p_sku (products (handleAdjustStock (sampleEnv ''a'') ''w'' 2 widgetState) ! 0) =
          p_sku (products widgetState ! 0) \<and>
        p_name (products (handleAdjustStock (sampleEnv ''a'') ''w'' 2 widgetState) ! 0) =
          p_name (products widgetState ! 0) \<and>
        price (products (handleAdjustStock (sampleEnv ''a'') ''w'' 2 widgetState) ! 0) =
          price (products widgetState ! 0)"
    by blast
  moreover from adjustStock_frame[of "sampleEnv ''a''" "''ghost''" 2 widgetState] len other
  have "products (handleAdjustStock (sampleEnv ''a'') ''ghost'' 2 widgetState) ! 0 =
          products widgetState ! 0"
    by blast
  ultimately show ?thesis by (simp add: widgetState_eq)
qed

text \<open>
  C1. From a product table with all quantities \<open>\<ge> 0\<close>, after every prefix of every
  sequence of \<^verbatim>\<open>adjustStock\<close> calls (any product id, any signed delta) every quantity is
  \<open>\<ge> 0\<close>, and for every product id the number of ledger entries of type increase or
  decrease that reference it has grown by exactly the number of accepted calls on it;
  a rejected call adds none.
\<close>

theorem adjustStock_sequence_invariant:
  assumes "\<forall>p \<in> set (products s). 0 \<le> quantity p"
  shows "\<forall>n \<le> length cs.
           (\<forall>p \<in> set (products (adjustAll (take n cs) s)). 0 \<le> quantity p) \<and>
           (\<forall>x. length (adjustmentEntries (transactions (adjustAll (take n cs) s)) x) =
                  length (adjustmentEntries (transactions s) x) + acceptedCalls (take n cs) s x)"
  using adjustAll_nonneg[OF assms] adjustAll_entries by blast

theorem adjustStock_sequence_invariant_witness:
  "list_all (\<lambda>p. 0 \<le> quantity p) (products widgetState) \<and>
   adjustAll sampleCalls widgetState = widgetState5 \<and>
   list_all (\<lambda>p. 0 \<le> quantity p) (products widgetState5) \<and>
   acceptedCalls sampleCalls widgetState ''w'' = 1 \<and>
   length (adjustmentEntries (transactions widgetState) ''w'') = 0 \<and>
   length (adjustmentEntries (transactions widgetState5) ''w'') = 1"
proof -
  have h: "\<forall>p \<in> set (products widgetState). 0 \<le> quantity p" by (simp add: widgetState_eq)
  have run: "adjustAll sampleCalls widgetState = widgetState5"
    by (simp add: sampleCalls_def widgetState5_def[symmetric] widgetState5_rejects)
  have acc: "acceptedCalls sampleCalls widgetState ''w'' = 1"
    by (simp add: sampleCalls_def accepted_def widgetState5_def[symmetric])
       (simp add: widgetState_eq widgetState5_eq)
  have e0: "length (adjustmentEntries (transactions widgetState) ''w'') = 0"
    by (simp add: widgetState_eq adjustmentEntries_def)
  have len: "2 \<le> length sampleCalls" by (simp add: sampleCalls_def)
  have tk: "take 2 sampleCalls = sampleCalls" by (simp add: sampleCalls_def)
  from adjustStock_sequence_invariant[OF h, of sampleCalls] len have
    "(\<forall>p \<in> set (products (adjustAll (take 2 sampleCalls) widgetState)). 0 \<le> quantity p) \<and>
     (\<forall>x. length (adjustmentEntries (transactions (adjustAll (take 2 sampleCalls) widgetState)) x) =
       length (adjustmentEntries (transactions widgetState) x)
         + acceptedCalls (take 2 sampleCalls) widgetState x)"
    by blast
  then have "(\<forall>p \<in> set (products widgetState5). 0 \<le> quantity p) \<and>
     length (adjustmentEntries (transactions widgetState5) ''w'') =
       length (adjustmentEntries (transactions widgetState) ''w'')
         + acceptedCalls sampleCalls widgetState ''w''"
    unfolding tk run by blast
  with h run acc e0 show ?thesis by (simp add: list_all_iff)
qed

section \<open>Registration and the reconstruction of quantities from the ledger\<close>

lemma entriesOf_Cons:
  "entriesOf ty (t # txs) x =
     (if productId t = x \<and> ttype t = ty then t # entriesOf ty txs x else entriesOf ty txs x)"
  by (simp add: entriesOf_def)

lemma sumAmounts_Cons:
  "sumAmounts ty (t # txs) x =
     (if productId t = x \<and> ttype t = ty then amount t + sumAmounts ty txs x
      else sumAmounts ty txs x)"
  by (simp add: sumAmounts_def entriesOf_def)

lemma entriesOf_unreferenced:
  "\<forall>t \<in> set txs. productId t \<noteq> x \<Longrightarrow> entriesOf ty txs x = []"
  by (induction txs) (auto simp: entriesOf_def)

lemma sumAmounts_unreferenced:
  "\<forall>t \<in> set txs. productId t \<noteq> x \<Longrightarrow> sumAmounts ty txs x = 0"
  by (simp add: sumAmounts_def entriesOf_unreferenced)

lemma reconciled_empty: "reconciled emptyState"
  by (simp add: reconciled_def emptyState_def)

lemma reconciled_submitUser:
  "reconciled s \<Longrightarrow> reconciled (snd (UserRegistrationForm_handleSubmit e f m s))"
  by (simp add: reconciled_def UserRegistrationForm_handleSubmit_def handleRegisterUser_def)

lemma reconciled_registerProduct:
  assumes inv: "reconciled s"
    and fresh: "randomUUID e 0 \<notin> set (map p_id (products s))"
    and q: "0 \<le> q"
  shows "reconciled (handleRegisterProduct e k n c q s)"
proof -
  let ?u = "randomUUID e 0"
  let ?t = "\<lparr>t_id = randomUUID e 1, productId = ?u, sku = k, productName = n,
             ttype = Initial, amount = \<bar>q\<bar>, timestamp = now e 1\<rparr>"
  let ?p = "\<lparr>p_id = ?u, p_sku = k, p_name = n, price = c, quantity = q, lastUpdated = now e 0\<rparr>"
  have prods: "products (handleRegisterProduct e k n c q s) = products s @ [?p]"
    by (simp add: handleRegisterProduct_def Let_def)
  have txs: "transactions (handleRegisterProduct e k n c q s) = ?t # transactions s"
    by (simp add: handleRegisterProduct_def addTransaction_def Let_def)
  from inv fresh have unref: "\<forall>t \<in> set (transactions s). productId t \<noteq> ?u"
    unfolding reconciled_def by metis
  have d: "distinct (map p_id (products s @ [?p]))"
    using inv fresh by (simp add: reconciled_def)
  have refs: "\<forall>t \<in> set (?t # transactions s). productId t \<in> set (map p_id (products s @ [?p]))"
    using inv by (simp add: reconciled_def)
  have new: "length (entriesOf Initial (?t # transactions s) ?u) = 1 \<and>
         q = sumAmounts Initial (?t # transactions s) ?u
           + sumAmounts Increase (?t # transactions s) ?u
           - sumAmounts Decrease (?t # transactions s) ?u"
    using q by (simp add: entriesOf_Cons sumAmounts_Cons entriesOf_unreferenced[OF unref]
        sumAmounts_unreferenced[OF unref])
  have old: "length (entriesOf Initial (?t # transactions s) (p_id p)) = 1 \<and>
         quantity p = sumAmounts Initial (?t # transactions s) (p_id p)
           + sumAmounts Increase (?t # transactions s) (p_id p)
           - sumAmounts Decrease (?t # transactions s) (p_id p)"
    if "p \<in> set (products s)" for p
  proof -
    from that fresh have "p_id p \<noteq> ?u" by (metis imageI set_map)
    with that inv show ?thesis
      by (simp add: entriesOf_Cons sumAmounts_Cons reconciled_def)
  qed
  show ?thesis
    unfolding reconciled_def prods txs
    using d refs new old by auto
qed


lemma handleAdjustStock_accepted_map:
  assumes d: "distinct (map p_id (products s))"
    and p: "p \<in> set (products s)" "0 \<le> quantity p + a"
  shows "handleAdjustStock e (p_id p) a s =
           s\<lparr>products :=
               map (\<lambda>x. if p_id x = p_id p
                         then x\<lparr>quantity := jsAdd (quantity x) a, lastUpdated := now e 0\<rparr> else x)
                 (products s),
             transactions :=
               \<lparr>t_id = randomUUID e 0, productId = p_id p, sku = p_sku p, productName = p_name p,
                ttype = (if a > 0 then Increase else Decrease), amount = \<bar>a\<bar>,
                timestamp = now e 1\<rparr> # transactions s\<rparr>"
  using adjustMap_unique_map[OF d p, of e "transactions s" 0 "transactions s"]
  by (simp add: handleAdjustStock_def addTransaction_def)

lemma reconciled_adjustStock:
  assumes inv: "reconciled s"
    and safe: "\<forall>x \<in> set (products s). p_id x = i \<longrightarrow> quantity x + a \<le> 9007199254740992"
  shows "reconciled (handleAdjustStock e i a s)"
proof (cases "accepted (products s) i a")
  case False
  with inv show ?thesis by (simp add: handleAdjustStock_rejected)
next
  case True
  then obtain p where p: "p \<in> set (products s)" "p_id p = i" "0 \<le> quantity p + a"
    by (auto simp: accepted_def)
  from inv have d: "distinct (map p_id (products s))" by (simp add: reconciled_def)
  have exact: "jsAdd (quantity x) a = quantity x + a" if "x \<in> set (products s)" "p_id x = i" for x
  proof -
    from d p(1) p(2) that have "x = p" by (meson distinct_map inj_onD)
    with p(3) safe that show ?thesis by (simp add: jsAdd_exact)
  qed
  let ?f = "\<lambda>x. if p_id x = i
                 then x\<lparr>quantity := jsAdd (quantity x) a, lastUpdated := now e 0\<rparr> else x"
  let ?t = "\<lparr>t_id = randomUUID e 0, productId = i, sku = p_sku p, productName = p_name p,
             ttype = (if a > 0 then Increase else Decrease), amount = \<bar>a\<bar>,
             timestamp = now e 1\<rparr>"
  from handleAdjustStock_accepted_map[OF d p(1) p(3), of e] p(2)
  have eq: "handleAdjustStock e i a s =
              s\<lparr>products := map ?f (products s), transactions := ?t # transactions s\<rparr>"
    by simp
  have ids: "map p_id (map ?f (products s)) = map p_id (products s)"
    by (induction "products s") auto
  have refs: "\<forall>t \<in> set (?t # transactions s). productId t \<in> set (map p_id (products s))"
    using inv p by (auto simp: reconciled_def)
  have each: "length (entriesOf Initial (?t # transactions s) (p_id (?f x))) = 1 \<and>
         quantity (?f x) = sumAmounts Initial (?t # transactions s) (p_id (?f x))
           + sumAmounts Increase (?t # transactions s) (p_id (?f x))
           - sumAmounts Decrease (?t # transactions s) (p_id (?f x))"
    if "x \<in> set (products s)" for x
    using that inv exact[OF that]
    by (auto simp: reconciled_def entriesOf_Cons sumAmounts_Cons)
  have prods: "products (handleAdjustStock e i a s) = map ?f (products s)"
    and txs: "transactions (handleAdjustStock e i a s) = ?t # transactions s"
    by (simp_all add: eq)
  show ?thesis
    unfolding reconciled_def prods txs
  proof (intro conjI ballI)
    show "distinct (map p_id (map ?f (products s)))"
      by (simp only: ids d)
  next
    fix t
    assume "t \<in> set (?t # transactions s)"
    with refs show "productId t \<in> set (map p_id (map ?f (products s)))"
      by (simp only: ids)
  next
    fix q
    assume "q \<in> set (map ?f (products s))"
    then obtain x where x: "x \<in> set (products s)" "q = ?f x"
      by (auto simp only: set_map)
    from each[OF x(1)] x(2)
    show "length (entriesOf Initial (?t # transactions s) (p_id q)) = 1" by simp
    from each[OF x(1)] x(2)
    show "quantity q = sumAmounts Initial (?t # transactions s) (p_id q)
           + sumAmounts Increase (?t # transactions s) (p_id q)
           - sumAmounts Decrease (?t # transactions s) (p_id q)" by simp
  qed
qed

lemma productForm_outcome:
  "snd (ProductRegistrationForm_handleSubmit rt e k n pt qt s) = s \<or>
   (\<exists>c q. 0 \<le> q \<and>
      snd (ProductRegistrationForm_handleSubmit rt e k n pt qt s) =
        handleRegisterProduct e k n c q s)"
proof (cases "parseFloat rt pt")
  case None
  then show ?thesis by (simp add: ProductRegistrationForm_handleSubmit_def)
next
  case (Some c)
  note c = this
  show ?thesis
  proof (cases "parseInt rt qt")
    case None
    with c show ?thesis by (simp add: ProductRegistrationForm_handleSubmit_def)
  next
    case (Some q)
    show ?thesis
    proof (cases "k = [] \<or> n = [] \<or> pt = [] \<or> qt = [] \<or> c \<le> 0 \<or> q < 0")
      case True
      with c Some show ?thesis
        by (auto simp: ProductRegistrationForm_handleSubmit_def)
    next
      case False
      then have "0 \<le> q" by simp
      moreover from False c Some
      have "snd (ProductRegistrationForm_handleSubmit rt e k n pt qt s) =
              handleRegisterProduct e k n c q s"
        by (simp add: ProductRegistrationForm_handleSubmit_def)
      ultimately show ?thesis by blast
    qed
  qed
qed

lemma reconciled_submitProduct:
  assumes "reconciled s" and "randomUUID e 0 \<notin> set (map p_id (products s))"
  shows "reconciled (snd (ProductRegistrationForm_handleSubmit rt e k n pt qt s))"
  using productForm_outcome[of rt e k n pt qt s] assms reconciled_registerProduct
  by metis

lemma reconciled_run:
  "reconciled s \<Longrightarrow> wellFormed rt cs s \<Longrightarrow> safeIntegers rt cs s \<Longrightarrow>
   reconciled (run rt cs s)"
proof (induction cs arbitrary: s)
  case Nil
  then show ?case by simp
next
  case (Cons c cs)
  have "reconciled (execute rt c s)"
  proof (cases c)
    case (SubmitUser e f m)
    with Cons.prems show ?thesis by (simp add: reconciled_submitUser)
  next
    case (SubmitProduct e k n pt qt)
    with Cons.prems show ?thesis by (simp add: reconciled_submitProduct)
  next
    case (AdjustStock e i a)
    with Cons.prems(3)
    have "\<forall>x \<in> set (products s). p_id x = i \<longrightarrow> quantity x + a \<le> 9007199254740992"
      by simp
    from reconciled_adjustStock[OF Cons.prems(1) this] AdjustStock show ?thesis by simp
  qed
  moreover from Cons.prems have "wellFormed rt cs (execute rt c s)"
    and "safeIntegers rt cs (execute rt c s)" by simp_all
  ultimately show ?case using Cons.IH by simp
qed

lemma handleRegisterProduct_eq:
  "0 \<le> q \<Longrightarrow>
   handleRegisterProduct e k n c q s =
     s\<lparr>products := products s @
          [\<lparr>p_id = randomUUID e 0, p_sku = k, p_name = n, price = c, quantity = q,
            lastUpdated = now e 0\<rparr>],
       transactions :=
         \<lparr>t_id = randomUUID e 1, productId = randomUUID e 0, sku = k, productName = n,
          ttype = Initial, amount = q, timestamp = now e 1\<rparr> # transactions s\<rparr>"
  by (simp add: handleRegisterProduct_def addTransaction_def Let_def)

lemma productForm_accepts:
  "k \<noteq> [] \<Longrightarrow> n \<noteq> [] \<Longrightarrow> pt \<noteq> [] \<Longrightarrow> qt \<noteq> [] \<Longrightarrow>
   parseFloat rt pt = Some c \<Longrightarrow> 0 < c \<Longrightarrow> parseInt rt qt = Some q \<Longrightarrow> 0 \<le> q \<Longrightarrow>
   ProductRegistrationForm_handleSubmit rt e k n pt qt s =
     ([], handleRegisterProduct e k n c q s)"
  by (simp add: ProductRegistrationForm_handleSubmit_def)

lemma sampleSession_run:
  "run sampleRuntime sampleSession emptyState =
     \<lparr>users = [],
      products = [\<lparr>p_id = ''w'', p_sku = ''A1'', p_name = ''Widget'', price = 10,
                   quantity = 4, lastUpdated = ''Tc''\<rparr>],
      transactions = [\<lparr>t_id = ''c'', productId = ''w'', sku = ''A1'', productName = ''Widget'',
                       ttype = Decrease, amount = 1, timestamp = ''Tc+''\<rparr>,
                      \<lparr>t_id = ''a'', productId = ''w'', sku = ''A1'', productName = ''Widget'',
                       ttype = Increase, amount = 2, timestamp = ''Ta+''\<rparr>,
                      \<lparr>t_id = ''w+'', productId = ''w'', sku = ''A1'', productName = ''Widget'',
                       ttype = Initial, amount = 3, timestamp = ''Tw+''\<rparr>]\<rparr>"
  by (simp add: sampleSession_def sampleRuntime_def roundDouble_exact
        ProductRegistrationForm_handleSubmit_def
        handleRegisterProduct_def handleAdjustStock_def adjustMap.simps(2) sampleEnv_def
        emptyState_def addTransaction_def Let_def jsAdd_exact)

lemma sampleSession_wellFormed: "wellFormed sampleRuntime sampleSession emptyState"
  by (simp add: sampleSession_def emptyState_def)

lemma sampleSession_safe: "safeIntegers sampleRuntime sampleSession emptyState"
  by (simp add: sampleSession_def sampleRuntime_def roundDouble_exact
        ProductRegistrationForm_handleSubmit_def
        handleRegisterProduct_def handleAdjustStock_def adjustMap.simps(2) sampleEnv_def
        emptyState_def addTransaction_def Let_def jsAdd_exact)

lemma bigSession_run:
  "run sampleRuntime bigSession emptyState =
     \<lparr>users = [],
      products = [\<lparr>p_id = ''w'', p_sku = ''A1'', p_name = ''Widget'', price = 10,
                   quantity = 9007199254740991, lastUpdated = ''Tb''\<rparr>],
      transactions = [\<lparr>t_id = ''b'', productId = ''w'', sku = ''A1'', productName = ''Widget'',
                       ttype = Decrease, amount = 1, timestamp = ''Tb+''\<rparr>,
                      \<lparr>t_id = ''a'', productId = ''w'', sku = ''A1'', productName = ''Widget'',
                       ttype = Increase, amount = 1, timestamp = ''Ta+''\<rparr>,
                      \<lparr>t_id = ''w+'', productId = ''w'', sku = ''A1'', productName = ''Widget'',
                       ttype = Initial, amount = 9007199254740992, timestamp = ''Tw+''\<rparr>]\<rparr>"
proof -
  have "run sampleRuntime bigSession emptyState =
        handleAdjustStock (sampleEnv ''b'') ''w'' (- 1)
          (handleAdjustStock (sampleEnv ''a'') ''w'' 1 bigState)"
    by (simp add: bigSession_def bigState_def)
  then show ?thesis
    unfolding bigState_plus
    by (simp add: handleAdjustStock_def adjustMap.simps(2) jsAdd_exact sampleEnv_def
        addTransaction_def)
qed

text \<open>
  C9, as stated, fails above the integers that doubles hold one by one. From the empty
  state, register a product with quantity \<open>2^53\<close> through the form, press \<open>+\<close>, press
  \<open>-\<close> (the id is fresh): the product holds \<open>2^53 - 1\<close>, while its one initial entry,
  its increase and its decrease add up to \<open>2^53 + 1 - 1\<close>.
\<close>

theorem ledger_reconstruction_counterexample:
  "wellFormed sampleRuntime bigSession emptyState \<and>
   p_id (hd (products (run sampleRuntime bigSession emptyState))) = ''w'' \<and>
   quantity (hd (products (run sampleRuntime bigSession emptyState))) = 9007199254740991 \<and>
   sumAmounts Initial (transactions (run sampleRuntime bigSession emptyState)) ''w''
     = 9007199254740992 \<and>
   sumAmounts Increase (transactions (run sampleRuntime bigSession emptyState)) ''w'' = 1 \<and>
   sumAmounts Decrease (transactions (run sampleRuntime bigSession emptyState)) ''w'' = 1 \<and>
   quantity (hd (products (run sampleRuntime bigSession emptyState))) \<noteq>
     sumAmounts Initial (transactions (run sampleRuntime bigSession emptyState)) ''w''
       + sumAmounts Increase (transactions (run sampleRuntime bigSession emptyState)) ''w''
       - sumAmounts Decrease (transactions (run sampleRuntime bigSession emptyState)) ''w''"
proof -
  have "wellFormed sampleRuntime bigSession emptyState"
    by (simp add: bigSession_def emptyState_def)
  then show ?thesis
    by (simp add: bigSession_run sumAmounts_def entriesOf_def)
qed

text \<open>
  C9, amended. Starting from the empty state, after any session (submissions of the two
  forms and stock adjustments by any signed delta, with whatever the runtime's parsers
  return) in which every registration draws a fresh product id and no adjustment takes
  the quantity of its target above \<open>2^53\<close>, every product has exactly one initial entry in
  the ledger, and its quantity equals the amount of that entry plus the sum of the
  amounts of its increase entries minus the sum of the amounts of its decrease entries.
\<close>

theorem ledger_reconstruction:
  assumes "wellFormed rt cs emptyState"
    and "safeIntegers rt cs emptyState"
    and "p \<in> set (products (run rt cs emptyState))"
  shows "length (entriesOf Initial (transactions (run rt cs emptyState)) (p_id p)) = 1 \<and>
         quantity p = sumAmounts Initial (transactions (run rt cs emptyState)) (p_id p)
                    + sumAmounts Increase (transactions (run rt cs emptyState)) (p_id p)
                    - sumAmounts Decrease (transactions (run rt cs emptyState)) (p_id p)"
  using reconciled_run[OF reconciled_empty assms(1) assms(2)] assms(3)
  by (simp add: reconciled_def)

theorem ledger_reconstruction_witness:
  "wellFormed sampleRuntime sampleSession emptyState \<and>
   safeIntegers sampleRuntime sampleSession emptyState \<and>
   hd (products (run sampleRuntime sampleSession emptyState))
     \<in> set (products (run sampleRuntime sampleSession emptyState)) \<and>
   p_id (hd (products (run sampleRuntime sampleSession emptyState))) = ''w'' \<and>
   length (entriesOf Initial (transactions (run sampleRuntime sampleSession emptyState)) ''w'') = 1 \<and>
   quantity (hd (products (run sampleRuntime sampleSession emptyState))) = 4 \<and>
   sumAmounts Initial (transactions (run sampleRuntime sampleSession emptyState)) ''w'' = 3 \<and>
   sumAmounts Increase (transactions (run sampleRuntime sampleSession emptyState)) ''w'' = 2 \<and>
   sumAmounts Decrease (transactions (run sampleRuntime sampleSession emptyState)) ''w'' = 1"
proof -
  have mem: "hd (products (run sampleRuntime sampleSession emptyState))
      \<in> set (products (run sampleRuntime sampleSession emptyState))"
    by (simp add: sampleSession_run)
  have i: "p_id (hd (products (run sampleRuntime sampleSession emptyState))) = ''w''"
    by (simp add: sampleSession_run)
  have sums: "sumAmounts Initial (transactions (run sampleRuntime sampleSession emptyState)) ''w'' = 3"
    "sumAmounts Increase (transactions (run sampleRuntime sampleSession emptyState)) ''w'' = 2"
    "sumAmounts Decrease (transactions (run sampleRuntime sampleSession emptyState)) ''w'' = 1"
    by (simp_all add: sampleSession_run sumAmounts_def entriesOf_def)
  from ledger_reconstruction[OF sampleSession_wellFormed sampleSession_safe mem] i sums
  show ?thesis using sampleSession_wellFormed sampleSession_safe mem by simp
qed

text \<open>
  C4. For every valid input (non-empty sku and name, price \<open>> 0\<close>, integer quantity
  \<open>\<ge> 0\<close>): \<^verbatim>\<open>handleRegisterProduct\<close> returns the state with exactly one product appended,
  carrying the given sku, name, price and quantity, and exactly one transaction put in
  front of the ledger, of type initial, with the initial quantity as its amount and the
  new product's id as its \<^verbatim>\<open>productId\<close>; users, the other products and the other
  transactions are as before. The handler needs only the quantity to be \<open>\<ge> 0\<close>. The
  form, given non-empty sku, name, price text and quantity text that parse to a price
  \<open>> 0\<close> and a quantity \<open>\<ge> 0\<close>, reports no error and has exactly this effect.
\<close>

theorem registerProduct_effect:
  "(0 \<le> quantity' \<longrightarrow>
      handleRegisterProduct e sku' name' price' quantity' s =
        s\<lparr>products := products s @
             [\<lparr>p_id = randomUUID e 0, p_sku = sku', p_name = name', price = price',
               quantity = quantity', lastUpdated = now e 0\<rparr>],
          transactions :=
            \<lparr>t_id = randomUUID e 1, productId = randomUUID e 0, sku = sku',
             productName = name', ttype = Initial, amount = quantity',
             timestamp = now e 1\<rparr> # transactions s\<rparr>) \<and>
   (sku' \<noteq> [] \<and> name' \<noteq> [] \<and> priceText \<noteq> [] \<and> quantityText \<noteq> [] \<and>
    parseFloat rt priceText = Some price' \<and> 0 < price' \<and>
    parseInt rt quantityText = Some quantity' \<and> 0 \<le> quantity' \<longrightarrow>
      ProductRegistrationForm_handleSubmit rt e sku' name' priceText quantityText s =
        ([], s\<lparr>products := products s @
                  [\<lparr>p_id = randomUUID e 0, p_sku = sku', p_name = name', price = price',
                    quantity = quantity', lastUpdated = now e 0\<rparr>],
               transactions :=
                 \<lparr>t_id = randomUUID e 1, productId = randomUUID e 0, sku = sku',
                  productName = name', ttype = Initial, amount = quantity',
                  timestamp = now e 1\<rparr> # transactions s\<rparr>))"
  using handleRegisterProduct_eq[of quantity' e sku' name' price' s]
    productForm_accepts[of sku' name' priceText quantityText rt price' quantity' e s]
  by simp

theorem registerProduct_effect_witness:
  "handleRegisterProduct (sampleEnv ''w'') ''A1'' ''Widget'' (999 / 100) 3 emptyState =
     \<lparr>users = [],
      products = [\<lparr>p_id = ''w'', p_sku = ''A1'', p_name = ''Widget'', price = 999 / 100,
                   quantity = 3, lastUpdated = ''Tw''\<rparr>],
      transactions = [\<lparr>t_id = ''w+'', productId = ''w'', sku = ''A1'', productName = ''Widget'',
                       ttype = Initial, amount = 3, timestamp = ''Tw+''\<rparr>]\<rparr> \<and>
   parseFloat sampleRuntime ''10'' = Some 10 \<and> parseInt sampleRuntime ''3'' = Some 3 \<and>
   ProductRegistrationForm_handleSubmit sampleRuntime (sampleEnv ''w'') ''A1'' ''Widget'' ''10''
       ''3'' emptyState =
     ([], \<lparr>users = [],
           products = [\<lparr>p_id = ''w'', p_sku = ''A1'', p_name = ''Widget'', price = 10,
                        quantity = 3, lastUpdated = ''Tw''\<rparr>],
           transactions = [\<lparr>t_id = ''w+'', productId = ''w'', sku = ''A1'',
                            productName = ''Widget'', ttype = Initial, amount = 3,
                            timestamp = ''Tw+''\<rparr>]\<rparr>)"
proof -
  have pf: "parseFloat sampleRuntime ''10'' = Some 10" and pi: "parseInt sampleRuntime ''3'' = Some 3"
    by (simp_all add: sampleRuntime_def roundDouble_exact)
  have ne: "''A1'' \<noteq> []" "''Widget'' \<noteq> []" "''10'' \<noteq> []" "''3'' \<noteq> []" by simp_all
  have pos: "(0::rat) < 10" "(0::int) \<le> 3" by simp_all
  from registerProduct_effect[of 3 "sampleEnv ''w''" "''A1''" "''Widget''" "999 / 100" emptyState]
  have 1: "handleRegisterProduct (sampleEnv ''w'') ''A1'' ''Widget'' (999 / 100) 3 emptyState =
        emptyState\<lparr>products := products emptyState @
             [\<lparr>p_id = randomUUID (sampleEnv ''w'') 0, p_sku = ''A1'', p_name = ''Widget'',
               price = 999 / 100, quantity = 3, lastUpdated = now (sampleEnv ''w'') 0\<rparr>],
          transactions :=
            \<lparr>t_id = randomUUID (sampleEnv ''w'') 1, productId = randomUUID (sampleEnv ''w'') 0,
             sku = ''A1'', productName = ''Widget'', ttype = Initial, amount = 3,
             timestamp = now (sampleEnv ''w'') 1\<rparr> # transactions emptyState\<rparr>"
    by simp
  from registerProduct_effect[of 3 "sampleEnv ''w''" "''A1''" "''Widget''" 10 emptyState
      "''10''" "''3''" sampleRuntime] pf pi ne pos
  have 2: "ProductRegistrationForm_handleSubmit sampleRuntime (sampleEnv ''w'') ''A1'' ''Widget''
        ''10'' ''3'' emptyState =
        ([], emptyState\<lparr>products := products emptyState @
             [\<lparr>p_id = randomUUID (sampleEnv ''w'') 0, p_sku = ''A1'', p_name = ''Widget'',
               price = 10, quantity = 3, lastUpdated = now (sampleEnv ''w'') 0\<rparr>],
          transactions :=
            \<lparr>t_id = randomUUID (sampleEnv ''w'') 1, productId = randomUUID (sampleEnv ''w'') 0,
             sku = ''A1'', productName = ''Widget'', ttype = Initial, amount = 3,
             timestamp = now (sampleEnv ''w'') 1\<rparr> # transactions emptyState\<rparr>)"
    by blast
  show ?thesis
    unfolding 1 2 using pf pi by (simp add: sampleEnv_def emptyState_def)
qed

section \<open>The email check\<close>

text \<open>\<open>test\<close> decides membership in the language of the expression.\<close>

lemma nullable_lang: "nullable r \<longleftrightarrow> [] \<in> lang r"
  by (induction r) (auto intro: star_empty)

lemma star_Cons_split:
  "x \<in> star A \<Longrightarrow> x = a # w \<Longrightarrow> \<exists>u v. w = u @ v \<and> a # u \<in> A \<and> v \<in> star A"
proof (induction arbitrary: w rule: star.induct)
  case star_empty
  then show ?case by simp
next
  case (star_step u v)
  show ?case
  proof (cases u)
    case Nil
    with star_step show ?thesis by simp
  next
    case (Cons b u')
    with star_step.prems have "b = a" "w = u' @ v" by simp_all
    with star_step.hyps Cons show ?thesis by blast
  qed
qed

lemma star_Cons:
  "a # w \<in> star A \<longleftrightarrow> (\<exists>u v. w = u @ v \<and> a # u \<in> A \<and> v \<in> star A)"
proof
  assume "a # w \<in> star A"
  then show "\<exists>u v. w = u @ v \<and> a # u \<in> A \<and> v \<in> star A"
    by (rule star_Cons_split) simp
next
  assume "\<exists>u v. w = u @ v \<and> a # u \<in> A \<and> v \<in> star A"
  then obtain u v where "w = u @ v" "a # u \<in> A" "v \<in> star A" by blast
  then show "a # w \<in> star A"
    using star_step[of "a # u" A v] by simp
qed

lemma lang_deriv: "w \<in> lang (deriv a r) \<longleftrightarrow> a # w \<in> lang r"
proof (induction r arbitrary: w)
  case (Seq r s)
  then show ?case
    by (auto simp: nullable_lang Cons_eq_append_conv)
next
  case (Star r)
  then show ?case
    by (auto simp: star_Cons)
qed auto

lemma test_lang: "test r w \<longleftrightarrow> w \<in> lang r"
  by (induction w arbitrary: r) (simp_all add: nullable_lang lang_deriv)


lemma star_NotSpace_sub:
  "w \<in> star (lang NotSpace) \<Longrightarrow> \<forall>c \<in> set w. \<not> isSpace c"
proof (induction rule: star.induct)
  case star_empty
  show ?case by simp
next
  case (star_step u v)
  from star_step.hyps(1) obtain c where "u = [c]" "\<not> isSpace c" by auto
  with star_step.IH show ?case by simp
qed

lemma star_NotSpace_sup:
  "\<forall>c \<in> set w. \<not> isSpace c \<Longrightarrow> w \<in> star (lang NotSpace)"
proof (induction w)
  case Nil
  show ?case by (rule star_empty)
next
  case (Cons c w)
  then have 1: "[c] \<in> lang NotSpace" by simp
  from Cons have 2: "w \<in> star (lang NotSpace)" by simp
  from star_step[OF 1 2] show ?case by simp
qed

lemma lang_OneOrMore_NotSpace:
  "w \<in> lang (OneOrMore NotSpace) \<longleftrightarrow> w \<noteq> [] \<and> (\<forall>c \<in> set w. \<not> isSpace c)"
proof
  assume "w \<in> lang (OneOrMore NotSpace)"
  then obtain u v where w: "w = u @ v" and u: "u \<in> lang NotSpace"
    and v: "v \<in> star (lang NotSpace)"
    unfolding OneOrMore_def lang.simps(5) lang.simps(7) by blast
  from u obtain c where c: "u = [c]" "\<not> isSpace c" by auto
  from star_NotSpace_sub[OF v] w c show "w \<noteq> [] \<and> (\<forall>c \<in> set w. \<not> isSpace c)"
    by simp
next
  assume a: "w \<noteq> [] \<and> (\<forall>c \<in> set w. \<not> isSpace c)"
  then obtain c v where w: "w = [c] @ v" by (cases w) auto
  with a have "[c] \<in> lang NotSpace" and "\<forall>c \<in> set v. \<not> isSpace c" by simp_all
  then have "[c] \<in> lang NotSpace" and "v \<in> star (lang NotSpace)"
    by (simp_all only: star_NotSpace_sup)
  then show "w \<in> lang (OneOrMore NotSpace)"
    unfolding OneOrMore_def lang.simps(5) lang.simps(7) w by blast
qed

lemma lang_Seq_iff: "w \<in> lang (Seq r s) \<longleftrightarrow> (\<exists>u v. w = u @ v \<and> u \<in> lang r \<and> v \<in> lang s)"
  by simp

lemma lang_SeqI: "u \<in> lang r \<Longrightarrow> v \<in> lang s \<Longrightarrow> u @ v \<in> lang (Seq r s)"
  by auto

lemma lang_Lit_iff: "w \<in> lang (Lit c) \<longleftrightarrow> w = [c]"
  by simp

lemma lang_emailRegex:
  "s \<in> lang emailRegex \<longleftrightarrow>
     (\<exists>a b c. s = a @ ''@'' @ b @ ''.'' @ c \<and> a \<in> lang (OneOrMore NotSpace) \<and>
              b \<in> lang (OneOrMore NotSpace) \<and> c \<in> lang (OneOrMore NotSpace))"
proof
  assume "s \<in> lang emailRegex"
  then obtain a r1 where 1: "s = a @ r1" "a \<in> lang (OneOrMore NotSpace)"
    and "r1 \<in> lang (Seq (Lit CHR ''@'') (Seq (OneOrMore NotSpace) (Seq (Lit CHR ''.'') (OneOrMore NotSpace))))"
    unfolding emailRegex_def lang_Seq_iff[of s] by blast
  then obtain r2 where 2: "r1 = ''@'' @ r2"
    and "r2 \<in> lang (Seq (OneOrMore NotSpace) (Seq (Lit CHR ''.'') (OneOrMore NotSpace)))"
    unfolding lang_Seq_iff[of r1] lang_Lit_iff by blast
  then obtain b r3 where 3: "r2 = b @ r3" "b \<in> lang (OneOrMore NotSpace)"
    and "r3 \<in> lang (Seq (Lit CHR ''.'') (OneOrMore NotSpace))"
    unfolding lang_Seq_iff[of r2] by blast
  then obtain c where 4: "r3 = ''.'' @ c" "c \<in> lang (OneOrMore NotSpace)"
    unfolding lang_Seq_iff[of r3] lang_Lit_iff by blast
  from 1 2 3 4 have "s = a @ ''@'' @ b @ ''.'' @ c" by simp
  with 1 3 4 show "\<exists>a b c. s = a @ ''@'' @ b @ ''.'' @ c \<and> a \<in> lang (OneOrMore NotSpace) \<and>
              b \<in> lang (OneOrMore NotSpace) \<and> c \<in> lang (OneOrMore NotSpace)"
    by blast
next
  assume "\<exists>a b c. s = a @ ''@'' @ b @ ''.'' @ c \<and> a \<in> lang (OneOrMore NotSpace) \<and>
              b \<in> lang (OneOrMore NotSpace) \<and> c \<in> lang (OneOrMore NotSpace)"
  then obtain a b c where s: "s = a @ ''@'' @ b @ ''.'' @ c"
    and a: "a \<in> lang (OneOrMore NotSpace)" and b: "b \<in> lang (OneOrMore NotSpace)"
    and c: "c \<in> lang (OneOrMore NotSpace)"
    by blast
  have dot: "''.'' \<in> lang (Lit CHR ''.'')" and at: "''@'' \<in> lang (Lit CHR ''@'')"
    by simp_all
  show "s \<in> lang emailRegex"
    unfolding s emailRegex_def
    by (intro lang_SeqI a b c dot at)
qed

lemma test_emailRegex: "test emailRegex s \<longleftrightarrow> emailPattern s"
proof
  assume "test emailRegex s"
  then obtain a b c where s: "s = a @ ''@'' @ b @ ''.'' @ c"
    and abc: "a \<in> lang (OneOrMore NotSpace)" "b \<in> lang (OneOrMore NotSpace)"
    "c \<in> lang (OneOrMore NotSpace)"
    unfolding test_lang lang_emailRegex by blast
  from abc have "a \<noteq> []" "b \<noteq> []" "c \<noteq> []"
    and "\<forall>x \<in> set a. \<not> isSpace x" "\<forall>x \<in> set b. \<not> isSpace x" "\<forall>x \<in> set c. \<not> isSpace x"
    unfolding lang_OneOrMore_NotSpace by simp_all
  moreover have "\<not> isSpace CHR ''@''" "\<not> isSpace CHR ''.''"
    by (simp_all add: isSpace_def)
  ultimately have "a \<noteq> [] \<and> b \<noteq> [] \<and> c \<noteq> [] \<and> (\<forall>x \<in> set s. \<not> isSpace x)"
    unfolding s by auto
  with s show "emailPattern s"
    unfolding emailPattern_def by blast
next
  assume "emailPattern s"
  then obtain a b c where s: "s = a @ ''@'' @ b @ ''.'' @ c"
    and ne: "a \<noteq> []" "b \<noteq> []" "c \<noteq> []" and sp: "\<forall>x \<in> set s. \<not> isSpace x"
    unfolding emailPattern_def by blast
  from sp have "\<forall>x \<in> set a. \<not> isSpace x" "\<forall>x \<in> set b. \<not> isSpace x" "\<forall>x \<in> set c. \<not> isSpace x"
    unfolding s by simp_all
  with ne have "a \<in> lang (OneOrMore NotSpace)" "b \<in> lang (OneOrMore NotSpace)"
    "c \<in> lang (OneOrMore NotSpace)"
    unfolding lang_OneOrMore_NotSpace by simp_all
  with s show "test emailRegex s"
    unfolding test_lang lang_emailRegex by blast
qed

lemma handleSubmit_rejects:
  "fullName' = [] \<or> email' = [] \<or> \<not> emailPattern email' \<Longrightarrow>
   fst (UserRegistrationForm_handleSubmit e fullName' email' s) \<noteq> [] \<and>
   snd (UserRegistrationForm_handleSubmit e fullName' email' s) = s"
  by (auto simp: UserRegistrationForm_handleSubmit_def test_emailRegex)

lemma handleSubmit_accepts:
  "fullName' \<noteq> [] \<Longrightarrow> email' \<noteq> [] \<Longrightarrow> emailPattern email' \<Longrightarrow>
   UserRegistrationForm_handleSubmit e fullName' email' s =
     ([], s\<lparr>users := users s @ [\<lparr>u_id = randomUUID e 0, fullName = fullName',
                                  email = email', createdAt = now e 0\<rparr>]\<rparr>)"
  by (simp add: UserRegistrationForm_handleSubmit_def test_emailRegex handleRegisterUser_def)

lemma emailPattern_ab: "emailPattern ''a@b.com''"
  unfolding test_emailRegex[symmetric]
  by (simp add: emailRegex_def OneOrMore_def isSpace_def)

lemma emailPattern_abc: "\<not> emailPattern ''abc''"
  unfolding test_emailRegex[symmetric]
  by (simp add: emailRegex_def OneOrMore_def isSpace_def)

text \<open>
  C8. The form's \<^verbatim>\<open>handleSubmit\<close> rejects (it sets a non-empty error message and returns
  before \<^verbatim>\<open>onRegisterUser\<close>, so the state is unchanged and no user is created) whenever
  the full name or the email is empty or the email is not of the form
  \<open>local-part@domain.tld\<close>: a non-empty run without whitespace, an \<open>@\<close>, a non-empty run,
  a dot, a non-empty run. Otherwise it appends exactly one user with the given name and
  email. In particular \<open>a@b.com\<close> is accepted (with a non-empty name) and \<open>abc\<close> is
  rejected with the state unchanged. An email that has no non-whitespace run before an
  \<open>@\<close> and one after it that contains a dot is not of that form, so it is rejected too.
\<close>

theorem registerUser_validation:
  "(fullName' = [] \<or> email' = [] \<or> \<not> emailPattern email' \<longrightarrow>
      fst (UserRegistrationForm_handleSubmit e fullName' email' s) \<noteq> [] \<and>
      snd (UserRegistrationForm_handleSubmit e fullName' email' s) = s) \<and>
   (fullName' \<noteq> [] \<and> email' \<noteq> [] \<and> emailPattern email' \<longrightarrow>
      UserRegistrationForm_handleSubmit e fullName' email' s =
        ([], s\<lparr>users := users s @ [\<lparr>u_id = randomUUID e 0, fullName = fullName',
                                     email = email', createdAt = now e 0\<rparr>]\<rparr>)) \<and>
   (fullName' \<noteq> [] \<longrightarrow>
      UserRegistrationForm_handleSubmit e fullName' ''a@b.com'' s =
        ([], s\<lparr>users := users s @ [\<lparr>u_id = randomUUID e 0, fullName = fullName',
                                     email = ''a@b.com'', createdAt = now e 0\<rparr>]\<rparr>)) \<and>
   fst (UserRegistrationForm_handleSubmit e fullName' ''abc'' s) \<noteq> [] \<and>
   snd (UserRegistrationForm_handleSubmit e fullName' ''abc'' s) = s"
proof (intro conjI impI)
  assume "fullName' = [] \<or> email' = [] \<or> \<not> emailPattern email'"
  from handleSubmit_rejects[OF this]
  show "fst (UserRegistrationForm_handleSubmit e fullName' email' s) \<noteq> []"
    and "snd (UserRegistrationForm_handleSubmit e fullName' email' s) = s"
    by simp_all
next
  assume "fullName' \<noteq> [] \<and> email' \<noteq> [] \<and> emailPattern email'"
  then show "UserRegistrationForm_handleSubmit e fullName' email' s =
        ([], s\<lparr>users := users s @ [\<lparr>u_id = randomUUID e 0, fullName = fullName',
                                     email = email', createdAt = now e 0\<rparr>]\<rparr>)"
    by (simp add: handleSubmit_accepts)
next
  assume "fullName' \<noteq> []"
  then show "UserRegistrationForm_handleSubmit e fullName' ''a@b.com'' s =
        ([], s\<lparr>users := users s @ [\<lparr>u_id = randomUUID e 0, fullName = fullName',
                                     email = ''a@b.com'', createdAt = now e 0\<rparr>]\<rparr>)"
    by (rule handleSubmit_accepts) (simp_all add: emailPattern_ab)
next
  have "fullName' = [] \<or> ''abc'' = [] \<or> \<not> emailPattern ''abc''"
    by (simp add: emailPattern_abc)
  from handleSubmit_rejects[OF this]
  show "fst (UserRegistrationForm_handleSubmit e fullName' ''abc'' s) \<noteq> []"
    and "snd (UserRegistrationForm_handleSubmit e fullName' ''abc'' s) = s"
    by simp_all
qed

theorem registerUser_validation_witness:
  "UserRegistrationForm_handleSubmit (sampleEnv ''u'') ''Ada'' ''a@b.com'' emptyState =
     ([], \<lparr>users = [\<lparr>u_id = ''u'', fullName = ''Ada'', email = ''a@b.com'', createdAt = ''Tu''\<rparr>],
           products = [], transactions = []\<rparr>) \<and>
   UserRegistrationForm_handleSubmit (sampleEnv ''u'') ''Ada'' ''abc'' emptyState =
     (''Please enter a valid email address.'', emptyState) \<and>
   UserRegistrationForm_handleSubmit (sampleEnv ''u'') [] ''a@b.com'' emptyState =
     (''Both fields are required.'', emptyState)"
proof -
  have ne: "''Ada'' \<noteq> []" by simp
  from registerUser_validation[of "''Ada''" "''a@b.com''" "sampleEnv ''u''" emptyState] ne
  have "UserRegistrationForm_handleSubmit (sampleEnv ''u'') ''Ada'' ''a@b.com'' emptyState =
        ([], emptyState\<lparr>users := users emptyState @
               [\<lparr>u_id = randomUUID (sampleEnv ''u'') 0, fullName = ''Ada'',
                 email = ''a@b.com'', createdAt = now (sampleEnv ''u'') 0\<rparr>]\<rparr>)"
    by blast
  moreover from registerUser_validation[of "''Ada''" "''abc''" "sampleEnv ''u''" emptyState]
  have "snd (UserRegistrationForm_handleSubmit (sampleEnv ''u'') ''Ada'' ''abc'' emptyState) = emptyState"
    by blast
  moreover from registerUser_validation[of "[]" "''a@b.com''" "sampleEnv ''u''" emptyState]
  have "snd (UserRegistrationForm_handleSubmit (sampleEnv ''u'') [] ''a@b.com'' emptyState) = emptyState"
    by blast
  moreover have "fst (UserRegistrationForm_handleSubmit (sampleEnv ''u'') ''Ada'' ''abc'' emptyState) =
      ''Please enter a valid email address.''"
    by (simp add: UserRegistrationForm_handleSubmit_def emailRegex_def OneOrMore_def isSpace_def)
  moreover have "fst (UserRegistrationForm_handleSubmit (sampleEnv ''u'') [] ''a@b.com'' emptyState) =
      ''Both fields are required.''"
    by (simp add: UserRegistrationForm_handleSubmit_def)
  ultimately show ?thesis
    by (simp add: prod_eq_iff sampleEnv_def emptyState_def)
qed

section \<open>Paging\<close>













section \<open>Loading from the store\<close>

lemma load_returns: "\<exists>v. load JSON_parse getItem key initialValue = Inr v"
  by (auto simp: load_def split: sum.splits option.splits)

lemma load_default:
  "getItem key = Inr None \<or> getItem key = Inr (Some []) \<or> (\<exists>x. getItem key = Inl x) \<or>
   (\<exists>t x. getItem key = Inr (Some t) \<and> JSON_parse t = Inl x) \<Longrightarrow>
   load JSON_parse getItem key initialValue = Inr initialValue"
  by (auto simp: load_def split: sum.splits option.splits)

lemma load_parsed:
  "getItem key = Inr (Some t) \<Longrightarrow> t \<noteq> [] \<Longrightarrow> JSON_parse t = Inr v \<Longrightarrow>
   load JSON_parse getItem key initialValue = Inr v"
  by (simp add: load_def)

text \<open>
  C6, as stated, fails: the stored text \<open>42\<close> under the key \<open>products\<close> parses to a
  number, which is not an array of product records, and \<open>load\<close> returns that number
  instead of the default \<open>[]\<close>. The hook never inspects what \<^verbatim>\<open>JSON.parse\<close> returns.
\<close>

theorem load_without_shape_check_counterexample:
  "sampleStorage ''products'' = Inr (Some ''42'') \<and>
   parseIntegerLiteral ''42'' = Inr (JNumber 42) \<and>
   \<not> isProductArray (JNumber 42) \<and>
   load parseIntegerLiteral sampleStorage ''products'' (JArray []) = Inr (JNumber 42) \<and>
   load parseIntegerLiteral sampleStorage ''products'' (JArray []) \<noteq> Inr (JArray [])"
  by (simp add: load_def sampleStorage_def parseIntegerLiteral_def isProductArray_def
      roundDouble_exact)

text \<open>
  C6, amended. For every key, \<open>load\<close> returns a value and never raises. It returns the
  caller-supplied default when nothing is stored under the key, when the stored text is
  empty, when reading the store throws, and when \<^verbatim>\<open>JSON.parse\<close> throws. Every other stored
  text is returned as \<^verbatim>\<open>JSON.parse\<close> reads it, whatever its shape.
\<close>

theorem load_fallback:
  "(\<exists>v. load JSON_parse getItem key initialValue = Inr v) \<and>
   (getItem key = Inr None \<or> getItem key = Inr (Some []) \<or> (\<exists>x. getItem key = Inl x) \<or>
    (\<exists>t x. getItem key = Inr (Some t) \<and> JSON_parse t = Inl x) \<longrightarrow>
      load JSON_parse getItem key initialValue = Inr initialValue) \<and>
   (\<forall>t v. getItem key = Inr (Some t) \<and> t \<noteq> [] \<and> JSON_parse t = Inr v \<longrightarrow>
      load JSON_parse getItem key initialValue = Inr v)"
  using load_returns load_default load_parsed by blast

theorem load_fallback_witness:
  "load parseIntegerLiteral sampleStorage ''users'' (JArray []) = Inr (JArray []) \<and>
   sampleStorage ''users'' = Inr None \<and>
   load parseIntegerLiteral corruptStorage ''users'' (JArray []) = Inr (JArray []) \<and>
   corruptStorage ''users'' = Inr (Some ''{broken'') \<and>
   parseIntegerLiteral ''{broken'' = Inl SyntaxError \<and>
   load parseIntegerLiteral sampleStorage ''products'' (JArray []) = Inr (JNumber 42)"
proof -
  have 1: "sampleStorage ''users'' = Inr None" by (simp add: sampleStorage_def)
  have 2: "corruptStorage ''users'' = Inr (Some ''{broken'')"
    "parseIntegerLiteral ''{broken'' = Inl SyntaxError"
    by (simp_all add: corruptStorage_def parseIntegerLiteral_def roundDouble_exact)
  have 3: "sampleStorage ''products'' = Inr (Some ''42'')" "''42'' \<noteq> []"
    "parseIntegerLiteral ''42'' = Inr (JNumber 42)"
    by (simp_all add: sampleStorage_def parseIntegerLiteral_def roundDouble_exact)
  from load_fallback[of parseIntegerLiteral sampleStorage "''users''" "JArray []"] 1
  have "load parseIntegerLiteral sampleStorage ''users'' (JArray []) = Inr (JArray [])"
    by blast
  moreover from load_fallback[of parseIntegerLiteral corruptStorage "''users''" "JArray []"] 2
  have "load parseIntegerLiteral corruptStorage ''users'' (JArray []) = Inr (JArray [])"
    by blast
  moreover from load_fallback[of parseIntegerLiteral sampleStorage "''products''" "JArray []"] 3
  have "load parseIntegerLiteral sampleStorage ''products'' (JArray []) = Inr (JNumber 42)"
    by blast
  ultimately show ?thesis using 1 2 by simp
qed

end
